theory Spec2Isabelle
  imports Complex_Main "HOL-Library.Sublist"
begin

section \<open>Data cleaning of auto-FE: a shallow embedding of \<^verbatim>\<open>data_clean.py\<close>\<close>

text \<open>
  The module cleans a Pandas dataframe: it detects outliers, fills missing values and
  resamples the two classes of a binary target. The embedding keeps the names of the
  source. The floating-point arithmetic of NumPy and of the imputer is that of IEEE 754
  doubles: every operation rounds its result, and the infinities and NaN are values of
  their own. The two ratios of the sampler are read as real numbers; all that happens
  to them is one division, one multiplication by a row count and the rounding to the
  nearest integer. Everything the source does beyond returning a value is explicit: an
  exception is a value of \<open>error\<close>, the in-place mutation of a dataframe is the table
  handed back.
\<close>

subsection \<open>Exceptions\<close>

datatype error = KeyError | ValueError | IndexError | ZeroDivisionError | InvalidIndexError

subsection \<open>Double-precision arithmetic\<close>

text \<open>
  A NumPy float is an IEEE 754 double: a finite number, an infinity
  (\<open>Infinite True\<close> is \<^verbatim>\<open>inf\<close>, \<open>Infinite False\<close> is \<^verbatim>\<open>-inf\<close>) or NaN. The finite doubles
  are the numbers \<open>m * 2 ^ k\<close> with an integer \<open>m\<close>, \<open>\<bar>m\<bar> < 2 ^ 53\<close>, and
  \<open>- 1074 \<le> k\<close>, of magnitude below \<open>2 ^ 1024\<close>. The two zeros are not told apart; no
  operation used here tells them apart.
\<close>

datatype double = Finite real | Infinite bool | NotANumber

text \<open>
  An operation returns its exact result rounded to the nearest double, a tie to the one
  with the even significand. \<open>exponent\<close> is the binary exponent of a number, that of
  the smallest normal double for a subnormal one; \<open>ulp\<close> is the distance between the
  doubles next to it. A rounded value of magnitude \<open>2 ^ 1024\<close> or more overflows to an
  infinity.
\<close>

definition round_half_even :: "real \<Rightarrow> int" where
  "round_half_even x =
     (let n = \<lfloor>x\<rfloor>; r = x - of_int n
      in if r < 1 / 2 then n else if 1 / 2 < r then n + 1 else if even n then n else n + 1)"

definition exponent :: "real \<Rightarrow> int" where
  "exponent x = max \<lfloor>log 2 \<bar>x\<bar>\<rfloor> (- 1022)"

definition ulp :: "real \<Rightarrow> real" where
  "ulp x = 2 powi (exponent x - 52)"

definition round_real :: "real \<Rightarrow> real" where
  "round_real x = of_int (round_half_even (x / ulp x)) * ulp x"

definition round_double :: "real \<Rightarrow> double" where
  "round_double x =
     (let r = round_real x
      in if 2 ^ 1024 \<le> \<bar>r\<bar> then Infinite (0 < r) else Finite r)"

text \<open>
  Negation, addition, subtraction, multiplication, division, square root and the
  comparison \<^verbatim>\<open><\<close> of doubles. NaN spreads, and compares false with everything. A
  division by zero gives an infinity, or NaN for \<^verbatim>\<open>0.0 / 0\<close> (NumPy warns and goes on);
  the divisors here are counts and the constant 2, so a zero divisor is \<^verbatim>\<open>+0.0\<close>.
\<close>

fun fneg :: "double \<Rightarrow> double" where
  "fneg (Finite x) = Finite (- x)"
| "fneg (Infinite s) = Infinite (\<not> s)"
| "fneg NotANumber = NotANumber"

fun fadd :: "double \<Rightarrow> double \<Rightarrow> double" where
  "fadd (Finite x) (Finite y) = round_double (x + y)"
| "fadd (Finite x) (Infinite t) = Infinite t"
| "fadd (Infinite s) (Finite y) = Infinite s"
| "fadd (Infinite s) (Infinite t) = (if s = t then Infinite s else NotANumber)"
| "fadd NotANumber b = NotANumber"
| "fadd a NotANumber = NotANumber"

definition fsub :: "double \<Rightarrow> double \<Rightarrow> double" where
  "fsub a b = fadd a (fneg b)"

fun fmul :: "double \<Rightarrow> double \<Rightarrow> double" where
  "fmul (Finite x) (Finite y) = round_double (x * y)"
| "fmul (Finite x) (Infinite t) = (if x = 0 then NotANumber else Infinite (t = (0 < x)))"
| "fmul (Infinite s) (Finite y) = (if y = 0 then NotANumber else Infinite (s = (0 < y)))"
| "fmul (Infinite s) (Infinite t) = Infinite (s = t)"
| "fmul NotANumber b = NotANumber"
| "fmul a NotANumber = NotANumber"

fun fdiv :: "double \<Rightarrow> double \<Rightarrow> double" where
  "fdiv (Finite x) (Finite y) =
     (if y = 0 then (if x = 0 then NotANumber else Infinite (0 < x))
      else round_double (x / y))"
| "fdiv (Finite x) (Infinite t) = Finite 0"
| "fdiv (Infinite s) (Finite y) = Infinite (s = (0 \<le> y))"
| "fdiv (Infinite s) (Infinite t) = NotANumber"
| "fdiv NotANumber b = NotANumber"
| "fdiv a NotANumber = NotANumber"

fun fsqrt :: "double \<Rightarrow> double" where
  "fsqrt (Finite x) = (if x < 0 then NotANumber else round_double (sqrt x))"
| "fsqrt (Infinite s) = (if s then Infinite True else NotANumber)"
| "fsqrt NotANumber = NotANumber"

fun dless :: "double \<Rightarrow> double \<Rightarrow> bool" where
  "dless (Finite x) (Finite y) = (x < y)"
| "dless (Finite x) (Infinite t) = t"
| "dless (Infinite s) (Finite y) = (\<not> s)"
| "dless (Infinite s) (Infinite t) = (\<not> s \<and> t)"
| "dless NotANumber b = False"
| "dless a NotANumber = False"

text \<open>
  The sum of an array of doubles (\<^verbatim>\<open>np.add.reduce\<close>) is not taken from left to right.
  NumPy's \<^verbatim>\<open>pairwise_sum\<close> adds fewer than eight numbers in their order; up to 128
  numbers with eight accumulators, which it then adds in pairs, and the numbers left
  over in their order; and it splits a longer array in two parts, the first a multiple
  of eight long, and adds the sums of the two:
  \<^verbatim>\<open>
  if (n < 8) {
      res = 0.;
      for (i = 0; i < n; i++) res += a[i];
      return res;
  }
  else if (n <= 128) {
      r[0] = a[0]; ...; r[7] = a[7];
      for (i = 8; i < n - (n % 8); i += 8) { r[0] += a[i + 0]; ...; r[7] += a[i + 7]; }
      res = ((r[0] + r[1]) + (r[2] + r[3])) + ((r[4] + r[5]) + (r[6] + r[7]));
      for (; i < n; i++) res += a[i];
      return res;
  }
  else {
      n2 = n / 2;
      n2 -= n2 % 8;
      return pairwise_sum(a, n2) + pairwise_sum(a + n2, n - n2);
  }
  \<close>
  \<open>add_blocks r a\<close> is the loop over the blocks of eight: \<open>a\<close> holds the numbers from
  the ninth on, up to the last full block.
\<close>

fun add_blocks :: "double list \<Rightarrow> double list \<Rightarrow> double list" where
  "add_blocks r a =
     (if length a < 8 then r else add_blocks (map2 fadd r (take 8 a)) (drop 8 a))"

function pairwise_sum :: "double list \<Rightarrow> double" where
  "pairwise_sum a =
     (if length a < 8 then foldl fadd (Finite 0) a
      else if length a \<le> 128 then
        (let r = add_blocks (take 8 a) (take (length a - length a mod 8 - 8) (drop 8 a));
             res = fadd (fadd (fadd (r ! 0) (r ! 1)) (fadd (r ! 2) (r ! 3)))
                        (fadd (fadd (r ! 4) (r ! 5)) (fadd (r ! 6) (r ! 7)))
         in foldl fadd res (drop (length a - length a mod 8) a))
      else
        (let n2 = length a div 2 - length a div 2 mod 8
         in fadd (pairwise_sum (take n2 a)) (pairwise_sum (drop n2 a))))"
  by pat_completeness auto

termination
proof (relation "measure length")
  show "wf (measure length)" by simp
next
  fix a :: "double list" and n2
  assume "\<not> length a < 8" and "\<not> length a \<le> 128"
    and "n2 = length a div 2 - length a div 2 mod 8"
  then show "(take n2 a, a) \<in> measure length" by simp
next
  fix a :: "double list" and n2
  assume "\<not> length a < 8" and "\<not> length a \<le> 128"
    and n2: "n2 = length a div 2 - length a div 2 mod 8"
  then have "0 < n2" by simp
  then show "(drop n2 a, a) \<in> measure length" using \<open>\<not> length a < 8\<close> by simp
qed

declare add_blocks.simps [simp del] pairwise_sum.simps [simp del]

subsection \<open>One-variable outlier detection\<close>

text \<open>
  \<^verbatim>\<open>np.mean\<close> divides the sum by the number of entries. \<^verbatim>\<open>np.std\<close> is the population
  standard deviation (\<^verbatim>\<open>ddof=0\<close>); NumPy takes the mean, the deviations from it, their
  squares, the mean of the squares and its square root, each a step in doubles:
  \<^verbatim>\<open>
  arrmean = umr_sum(arr) / n
  x = arr - arrmean
  x = x * x
  ret = umr_sum(x) / n
  ret = sqrt(ret)
  \<close>
  The mean of no entries is \<^verbatim>\<open>0.0 / 0\<close>, which is NaN.
\<close>

definition np_mean :: "double list \<Rightarrow> double" where
  "np_mean values = fdiv (pairwise_sum values) (Finite (real (length values)))"

definition np_std :: "double list \<Rightarrow> double" where
  "np_std values =
     (let arrmean = fdiv (pairwise_sum values) (Finite (real (length values)));
          x = map (\<lambda>v. fsub v arrmean) values;
          x = map (\<lambda>v. fmul v v) x;
          ret = fdiv (pairwise_sum x) (Finite (real (length values)))
      in fsqrt ret)"

text \<open>
  \<^verbatim>\<open>
  std = np.std(values)
  mean = np.mean(values)
  b = 3
  lower_limit = mean - b * std
  upper_limit = mean + b * std
  lower_index = [num for num in xrange(len(values)) if values[num] < lower_limit]
  upper_index = [num for num in xrange(len(values)) if values[num] > upper_limit]
  result_index = lower_index + upper_index
  \<close>
  The values are doubles (the scores of the isolation forest), so the limits are
  computed in doubles as well.
\<close>

definition mean_detection :: "double list \<Rightarrow> nat list" where
  "mean_detection values =
     (let std = np_std values;
          mean = np_mean values;
          b = Finite 3;
          lower_limit = fsub mean (fmul b std);
          upper_limit = fadd mean (fmul b std);
          lower_index = filter (\<lambda>num. dless (values ! num) lower_limit) [0..<length values];
          upper_index = filter (\<lambda>num. dless upper_limit (values ! num)) [0..<length values]
      in lower_index @ upper_index)"

text \<open>
  The mean and the standard deviation of the specification: those of the numbers
  themselves, with no rounding.
\<close>

definition exact_mean :: "real list \<Rightarrow> real" where
  "exact_mean xs = sum_list xs / real (length xs)"

definition exact_stddev :: "real list \<Rightarrow> real" where
  "exact_stddev xs = sqrt (sum_list (map (\<lambda>x. (x - exact_mean xs)\<^sup>2) xs) / real (length xs))"

subsection \<open>Dataframes\<close>

text \<open>
  A cell holds a finite number, a string, an infinity (\<open>Inf True\<close> is \<^verbatim>\<open>inf\<close>,
  \<open>Inf False\<close> is \<^verbatim>\<open>-inf\<close>), or is missing (NaN, None). A dataframe has named
  columns, each with the dtype Pandas stores for it, and rows; every row carries its
  index label and one cell per column. Pandas keeps the label of a row when it filters
  rows, so after a filter the labels are no longer the positions \<open>0..n-1\<close>.
\<close>

datatype cell = Num real | Str string | NaN | Inf bool

datatype dtype = Float64 | Int64 | Object

record table =
  columns :: "(string \<times> dtype) list"
  rows :: "(int \<times> cell list) list"

definition column_names :: "table \<Rightarrow> string list" where
  "column_names data = map fst (columns data)"

definition index :: "table \<Rightarrow> int list" where
  "index data = map fst (rows data)"

fun index_of :: "'a list \<Rightarrow> 'a \<Rightarrow> nat" where
  "index_of [] a = 0"
| "index_of (x # xs) a = (if x = a then 0 else Suc (index_of xs a))"

text \<open>A dataframe has one cell per column in every row.\<close>

definition wf_table :: "table \<Rightarrow> bool" where
  "wf_table data = list_all (\<lambda>row. length (snd row) = length (columns data)) (rows data)"

text \<open>\<^verbatim>\<open>data[column]\<close>: the cells of one column, KeyError when there is no such column.\<close>

definition column_values :: "table \<Rightarrow> string \<Rightarrow> cell list" where
  "column_values data column =
     map (\<lambda>row. snd row ! index_of (column_names data) column) (rows data)"

definition getitem :: "table \<Rightarrow> string \<Rightarrow> error + cell list" where
  "getitem data column =
     (if column \<in> set (column_names data) then Inr (column_values data column)
      else Inl KeyError)"

text \<open>\<^verbatim>\<open>data[feature_column]\<close> with a list of names: those columns, in that order.\<close>

definition select_columns :: "table \<Rightarrow> string list \<Rightarrow> error + table" where
  "select_columns data names =
     (if set names \<subseteq> set (column_names data)
      then Inr \<lparr>columns = map (\<lambda>c. (c, the (map_of (columns data) c))) names,
                rows = map (\<lambda>row. (fst row,
                         map (\<lambda>c. snd row ! index_of (column_names data) c) names)) (rows data)\<rparr>
      else Inl KeyError)"

text \<open>\<^verbatim>\<open>data[data[column] == label]\<close>: the rows whose cell equals the label.\<close>

definition rows_equal :: "table \<Rightarrow> string \<Rightarrow> cell \<Rightarrow> table" where
  "rows_equal data column label =
     data\<lparr>rows := filter (\<lambda>row. snd row ! index_of (column_names data) column = label)
                      (rows data)\<rparr>"

text \<open>
  \<^verbatim>\<open>Series.value_counts()\<close>: the distinct values that are not missing, each with the
  number of its occurrences, the most frequent first (values of equal frequency in the
  order of their first occurrence).
\<close>

definition value_counts :: "cell list \<Rightarrow> (cell \<times> nat) list" where
  "value_counts vals =
     (let present = filter (\<lambda>v. v \<noteq> NaN) vals
      in sort_key (\<lambda>kc. - int (snd kc))
           (map (\<lambda>k. (k, count_list present k)) (rev (remdups (rev present)))))"

text \<open>\<^verbatim>\<open>pd.concat([a, b], ignore_index=True)\<close> for frames with the same columns.\<close>

definition concat_ignore_index :: "table \<Rightarrow> table \<Rightarrow> table" where
  "concat_ignore_index a b =
     a\<lparr>rows := zip (map int [0..<length (rows a) + length (rows b)])
                     (map snd (rows a) @ map snd (rows b))\<rparr>"

subsection \<open>Under-sampling and over-sampling\<close>

text \<open>
  \<^verbatim>\<open>DataFrame.sample(frac=f, random_state=1021)\<close> draws
  \<^verbatim>\<open>n = int(round(f * len))\<close> rows without replacement: Pandas rejects a negative
  \<open>n\<close>, and NumPy's \<^verbatim>\<open>choice(len, size=n, replace=False)\<close> rejects an \<open>n\<close> larger than
  the population (ValueError both). Which positions the seeded generator draws is the
  parameter \<open>choice\<close>, a function of the population and sample sizes: the seed is fixed
  in the source, so the same sizes give the same positions on every run.
  Python 2's \<^verbatim>\<open>round\<close> rounds a half away from zero.
\<close>

definition py_round :: "real \<Rightarrow> int" where
  "py_round x = (if 0 \<le> x then \<lfloor>x + 1 / 2\<rfloor> else \<lceil>x - 1 / 2\<rceil>)"

definition sample_frac :: "(nat \<Rightarrow> nat \<Rightarrow> nat list) \<Rightarrow> table \<Rightarrow> real \<Rightarrow> error + table" where
  "sample_frac choice data fraction =
     (let axis_length = length (rows data);
          n = py_round (fraction * real axis_length)
      in if n < 0 then Inl ValueError
         else if int axis_length < n then Inl ValueError
         else Inr (data\<lparr>rows := map (\<lambda>loc. rows data ! loc) (choice axis_length (nat n))\<rparr>))"

text \<open>
  \<^verbatim>\<open>
  def random_sample(self, current_ratio, target_ratio):
      data = self.data.sample(frac=(current_ratio/target_ratio), random_state=1021)
      return data
  \<close>
\<close>

definition random_sample ::
  "(nat \<Rightarrow> nat \<Rightarrow> nat list) \<Rightarrow> table \<Rightarrow> real \<Rightarrow> real \<Rightarrow> error + table" where
  "random_sample choice data current_ratio target_ratio =
     (if target_ratio = 0 then Inl ZeroDivisionError
      else sample_frac choice data (current_ratio / target_ratio))"

text \<open>
  \<^verbatim>\<open>list.remove(x)\<close> removes the first occurrence and raises ValueError when there is
  none.
\<close>

definition list_remove :: "'a list \<Rightarrow> 'a \<Rightarrow> error + 'a list" where
  "list_remove xs x = (if x \<in> set xs then Inr (remove1 x xs) else Inl ValueError)"

text \<open>
  \<^verbatim>\<open>
  for element in self.id_columns:
      if element in feature_column:
          feature_column.remove(element)
  \<close>
\<close>

definition remove_present :: "string list \<Rightarrow> string list \<Rightarrow> string list" where
  "remove_present feature_column id_columns =
     fold (\<lambda>element fc. if element \<in> set fc then remove1 element fc else fc)
       id_columns feature_column"

text \<open>
  \<open>smote_sample\<close>: SMOTE itself (imblearn's \<^verbatim>\<open>fit_sample\<close>) is the parameter
  \<open>smoter\<close>, from the feature rows and the target values to the resampled ones; the
  method selects the feature columns and builds the new frame. SMOTE returns the
  features as an array of floats, so the feature columns of the new frame are float64
  whatever they were; the target keeps its dtype.
\<close>

type_synonym smote = "cell list list \<Rightarrow> cell list \<Rightarrow> error + (cell list list \<times> cell list)"

definition smote_sample :: "smote \<Rightarrow> table \<Rightarrow> string \<Rightarrow> string list \<Rightarrow> error + table" where
  "smote_sample smoter data target_column id_columns =
     (case list_remove (column_names data) target_column of
        Inl e \<Rightarrow> Inl e
      | Inr fc \<Rightarrow>
          (let feature_column = remove_present fc id_columns
           in case select_columns data feature_column of
                Inl e \<Rightarrow> Inl e
              | Inr X \<Rightarrow>
                  (case smoter (map snd (rows X)) (column_values data target_column) of
                     Inl e \<Rightarrow> Inl e
                   | Inr (feature, target) \<Rightarrow>
                       Inr \<lparr>columns = map (\<lambda>c. (c, Float64)) feature_column @
                                       [(target_column, the (map_of (columns data) target_column))],
                            rows = zip (map int [0..<length feature])
                                     (map (\<lambda>(f, t). f @ [t]) (zip feature target))\<rparr>)))"

text \<open>
  \<^verbatim>\<open>
  major_label = data[target_column].value_counts().keys()[0]
  minor_label = data[target_column].value_counts().keys()[1]
  major_data = data[data[target_column] == major_label]
  minor_data = data[data[target_column] == minor_label]
  current_ratio = major_data.shape[0] / float(minor_data.shape[0])
  target_ratio = 1.5
  if method in ['both', 'under-sampling']:
      under_sampler = UnderSampler(major_data, target_column)
      major_data = under_sampler.random_sample(current_ratio, target_ratio)
      data = pd.concat([major_data, minor_data], ignore_index=True)
  if method in ['both', 'over-sampling']:
      over_sampler = OverSampler(data, target_column, id_columns)
      data = over_sampler.smote_sample()
  return data
  \<close>
  A label taken from \<open>value_counts\<close> occurs in the column, so the minority frame has
  a row and the division is defined.
\<close>

definition sample_data ::
  "(nat \<Rightarrow> nat \<Rightarrow> nat list) \<Rightarrow> smote \<Rightarrow> table \<Rightarrow> string \<Rightarrow> string list \<Rightarrow> string
     \<Rightarrow> error + table" where
  "sample_data choice smoter data target_column id_columns method =
     (case getitem data target_column of
        Inl e \<Rightarrow> Inl e
      | Inr target \<Rightarrow>
          (let keys = map fst (value_counts target)
           in if length keys < 2 then Inl IndexError
              else
                (let major_label = keys ! 0;
                     minor_label = keys ! 1;
                     major_data = rows_equal data target_column major_label;
                     minor_data = rows_equal data target_column minor_label;
                     current_ratio = real (length (rows major_data)) / real (length (rows minor_data));
                     target_ratio = 3 / 2;
                     under =
                       (if method \<in> set [''both'', ''under-sampling'']
                        then (case random_sample choice major_data current_ratio target_ratio of
                                Inl e \<Rightarrow> Inl e
                              | Inr major_sampled \<Rightarrow> Inr (concat_ignore_index major_sampled minor_data))
                        else Inr data)
                 in case under of
                      Inl e \<Rightarrow> Inl e
                    | Inr data1 \<Rightarrow>
                        (if method \<in> set [''both'', ''over-sampling'']
                         then smote_sample smoter data1 target_column id_columns
                         else Inr data1))))"

subsection \<open>Filling missing values\<close>

text \<open>
  A fitted \<^verbatim>\<open>sklearn.preprocessing.Imputer\<close> for one column: its strategy and the
  statistic it fills with, a double. A \<open>NaFiller\<close> holds the strategy name and the
  dictionary of the imputers it has fitted, keyed by column name.
\<close>

record imputer =
  strategy :: string
  statistics :: double

record na_filler =
  numeric_method :: string
  num_imputer_dic :: "string \<Rightarrow> imputer option"

definition NaFiller :: "string \<Rightarrow> na_filler" where
  "NaFiller method = \<lparr>numeric_method = method, num_imputer_dic = Map.empty\<rparr>"

text \<open>
  A method of \<open>NaFiller\<close> mutates the dataframe it is given and the filler itself, so
  what it leaves behind is there whether it returns or raises: \<open>Returned s\<close> is a
  normal return in the state \<open>s\<close> (the method returns the dataframe of \<open>s\<close>),
  \<open>Raised e s\<close> the exception \<open>e\<close> raised in the state \<open>s\<close>.
\<close>

datatype 'a outcome = Returned 'a | Raised error 'a

text \<open>\<^verbatim>\<open>data.dtypes[column]\<close>.\<close>

definition dtypes :: "table \<Rightarrow> string \<Rightarrow> error + dtype" where
  "dtypes data column =
     (case map_of (columns data) column of None \<Rightarrow> Inl KeyError | Some d \<Rightarrow> Inr d)"

text \<open>
  \<^verbatim>\<open>data[column] = values\<close>: an existing column is replaced where it stands, a new one
  is appended. The values written here always have one entry per row.
\<close>

definition setitem :: "table \<Rightarrow> string \<Rightarrow> dtype \<Rightarrow> cell list \<Rightarrow> table" where
  "setitem data column d vals =
     (if column \<in> set (column_names data)
      then (let j = index_of (column_names data) column
            in \<lparr>columns = (columns data)[j := (column, d)],
                rows = map (\<lambda>(row, v). (fst row, (snd row)[j := v])) (zip (rows data) vals)\<rparr>)
      else \<lparr>columns = columns data @ [(column, d)],
            rows = map (\<lambda>(row, v). (fst row, snd row @ [v])) (zip (rows data) vals)\<rparr>)"

definition fillna :: "cell list \<Rightarrow> cell \<Rightarrow> cell list" where
  "fillna vals value = map (\<lambda>c. if c = NaN then value else c) vals"

definition isnull :: "cell list \<Rightarrow> bool list" where
  "isnull vals = map (\<lambda>c. c = NaN) vals"

text \<open>\<^verbatim>\<open>np.where(mask == True)[0].tolist()\<close>: the positions where the condition holds.\<close>

definition np_where :: "bool list \<Rightarrow> nat list" where
  "np_where cond = filter (\<lambda>i. cond ! i) [0..<length cond]"

definition np_zeros :: "nat \<Rightarrow> cell list" where
  "np_zeros n = replicate n (Num 0)"

text \<open>
  \<^verbatim>\<open>series[key] = value\<close> with a list of integers as key. A dataframe's index here is
  an integer index, and on an integer index Pandas reads the integers of the key as
  labels, not as positions (\<^verbatim>\<open>Series._set_labels\<close>): it looks them up with
  \<^verbatim>\<open>index.get_indexer(key)\<close>, which needs a unique index and raises InvalidIndexError
  on any other, whatever the key, and then raises ValueError when a label of the key is
  not in the index. The series is a view of the dataframe's column, so the assignment
  reaches the dataframe. An empty key assigns nothing.
\<close>

definition series_setitem :: "int list \<Rightarrow> cell list \<Rightarrow> int list \<Rightarrow> cell \<Rightarrow> error + cell list" where
  "series_setitem idx vals key value =
     (if \<not> distinct idx then Inl InvalidIndexError
      else if \<not> set key \<subseteq> set idx then Inl ValueError
      else Inr (fold (\<lambda>label vs. vs[index_of idx label := value]) key vals))"

text \<open>
  \<^verbatim>\<open>series[key]\<close> with the scalar \<^verbatim>\<open>True\<close> or \<^verbatim>\<open>False\<close> as key. A scalar key is
  looked up as a label, and a bool is never a label of an integer index: KeyError
  (IndexError on an empty series). A scalar bool is not a mask: nothing is selected.
\<close>

definition series_getitem_bool :: "int list \<Rightarrow> cell list \<Rightarrow> bool \<Rightarrow> error + (int \<times> cell) list" where
  "series_getitem_bool idx vals key = (if idx = [] then Inl IndexError else Inl KeyError)"

definition numbers :: "cell list \<Rightarrow> double list" where
  "numbers vals =
     List.map_filter
       (\<lambda>c. case c of Num x \<Rightarrow> Some (Finite x) | Inf s \<Rightarrow> Some (Infinite s) | _ \<Rightarrow> None) vals"

text \<open>
  The imputer works on the column as a masked array of doubles, the missing values
  masked. The mean (\<^verbatim>\<open>np.ma.mean\<close>) is the sum of the array with zeros in the place of
  the masked entries, divided by the number of the others; a mean that is not finite
  comes out masked, and the imputer takes a masked statistic for NaN.
\<close>

definition filled_with_zero :: "cell list \<Rightarrow> double list" where
  "filled_with_zero vals =
     map (\<lambda>c. case c of Num x \<Rightarrow> Finite x | Inf s \<Rightarrow> Infinite s | _ \<Rightarrow> Finite 0) vals"

definition ma_mean :: "cell list \<Rightarrow> double" where
  "ma_mean vals =
     (case fdiv (pairwise_sum (filled_with_zero vals)) (Finite (real (length (numbers vals)))) of
        Finite m \<Rightarrow> Finite m
      | _ \<Rightarrow> NotANumber)"

text \<open>
  The median (\<^verbatim>\<open>np.ma.median\<close>) is half the sum of the two middle entries of the sorted
  numbers, the middle entry taken twice when their count is odd. The most frequent
  number is the smallest of the most frequent ones.
\<close>

fun insort_double :: "double \<Rightarrow> double list \<Rightarrow> double list" where
  "insort_double x [] = [x]"
| "insort_double x (y # ys) = (if dless y x then y # insort_double x ys else x # y # ys)"

definition sort_double :: "double list \<Rightarrow> double list" where
  "sort_double xs = foldr insort_double xs []"

definition ma_median :: "double list \<Rightarrow> double" where
  "ma_median xs =
     (let s = sort_double xs; n = length xs;
          high = s ! (n div 2);
          low = (if even n then s ! (n div 2 - 1) else high)
      in fdiv (fadd low high) (Finite 2))"

definition most_frequent :: "double list \<Rightarrow> double" where
  "most_frequent xs =
     fst (hd (sort_key (\<lambda>vc. - int (snd vc))
               (map (\<lambda>v. (v, count_list xs v)) (remdups (sort_double xs)))))"

definition cell_of_double :: "double \<Rightarrow> cell" where
  "cell_of_double d = (case d of Finite x \<Rightarrow> Num x | Infinite s \<Rightarrow> Inf s | NotANumber \<Rightarrow> NaN)"

text \<open>
  \<^verbatim>\<open>
  imp = pp.Imputer(missing_values='NaN', strategy=self.numeric_method, axis=0)
  data[column] = imp.fit_transform(data[[column]])
  \<close>
  The imputer takes the mean, the median or the most frequent of the numbers of the
  column, as a double, and puts it where a value is missing. It rejects any other
  strategy name and an empty input. A column whose statistic is NaN, as that of a
  column with no number at all, is dropped by the imputer, and assigning the empty
  result to the column fails.
\<close>

definition imputer_fit_transform :: "string \<Rightarrow> cell list \<Rightarrow> error + (imputer \<times> cell list)" where
  "imputer_fit_transform method vals =
     (if method \<notin> set [''mean'', ''median'', ''most_frequent''] then Inl ValueError
      else if numbers vals = [] then Inl ValueError
      else (let stat = (if method = ''mean'' then ma_mean vals
                        else if method = ''median'' then ma_median (numbers vals)
                        else most_frequent (numbers vals))
            in if stat = NotANumber then Inl ValueError
               else Inr (\<lparr>strategy = method, statistics = stat\<rparr>,
                         fillna vals (cell_of_double stat))))"

text \<open>
  \<^verbatim>\<open>imp.transform(data[column])\<close> hands the imputer a one-dimensional series, where
  \<open>fit_transform\<close> handed it the one-column frame \<^verbatim>\<open>data[[column]]\<close>: the imputer
  rejects an input that is not two-dimensional.
\<close>

definition imputer_transform_series :: "imputer \<Rightarrow> cell list \<Rightarrow> error + cell list" where
  "imputer_transform_series imp vals = Inl ValueError"

text \<open>
  One round of the loop of \<open>fit_transform\<close>. The dtypes that compare equal to
  \<^verbatim>\<open>'float'\<close> and \<^verbatim>\<open>'int'\<close> are float64 and int64: these are the numeric columns,
  every other column is filled as a category.
  \<^verbatim>\<open>
  if data.dtypes[column] not in ['float', 'int']:
      data[column] = data[column].fillna('missing')
  else:
      data[column + '_flag'] = np.zeros(shape=len(data[column]))
      data[column + '_flag'][np.where(data[column].isnull().values == True)[0].tolist()] = 1
      imp = pp.Imputer(missing_values='NaN', strategy=self.numeric_method, axis=0)
      data[column] = imp.fit_transform(data[[column]])
      self.num_imputer_dic[column] = imp
  \<close>
  \<^verbatim>\<open>np.where\<close> gives positions, and the assignment to the flag series takes them as
  labels (\<open>series_setitem\<close>).
\<close>

definition fit_transform_column :: "na_filler \<times> table \<Rightarrow> string \<Rightarrow> (na_filler \<times> table) outcome" where
  "fit_transform_column s column =
     (let self = fst s; data = snd s
      in case dtypes data column of
           Inl e \<Rightarrow> Raised e s
         | Inr d \<Rightarrow>
             if d \<notin> set [Float64, Int64]
             then Returned (self, setitem data column Object
                                    (fillna (column_values data column) (Str ''missing'')))
             else
               (let flag = column @ ''_flag'';
                    data1 = setitem data flag Float64 (np_zeros (length (column_values data column)));
                    key = map int (np_where (isnull (column_values data1 column)))
                in case series_setitem (index data1) (column_values data1 flag) key (Num 1) of
                     Inl e \<Rightarrow> Raised e (self, data1)
                   | Inr flags \<Rightarrow>
                       (let data2 = setitem data1 flag Float64 flags
                        in case imputer_fit_transform (numeric_method self)
                                  (column_values data2 column) of
                             Inl e \<Rightarrow> Raised e (self, data2)
                           | Inr (imp, filled) \<Rightarrow>
                               Returned
                                 (self\<lparr>num_imputer_dic := (num_imputer_dic self)(column \<mapsto> imp)\<rparr>,
                                  setitem data2 column Float64 filled))))"

fun fit_transform_loop :: "na_filler \<times> table \<Rightarrow> string list \<Rightarrow> (na_filler \<times> table) outcome" where
  "fit_transform_loop s [] = Returned s"
| "fit_transform_loop s (column # column_list) =
     (case fit_transform_column s column of
        Raised e s' \<Rightarrow> Raised e s'
      | Returned s' \<Rightarrow> fit_transform_loop s' column_list)"

definition fit_transform :: "na_filler \<Rightarrow> table \<Rightarrow> string list \<Rightarrow> (na_filler \<times> table) outcome" where
  "fit_transform self data column_list = fit_transform_loop (self, data) column_list"

text \<open>
  One round of the loop of \<open>transform\<close>:
  \<^verbatim>\<open>
  if data.dtypes[column] not in ['float', 'int']:
      data[column] = data[column].fillna('missing')
  else:
      data[column + '_flag'] = np.zeros(shape=len(data[column]))
      data[column + '_flag'][data[column][data[column].isnull().values is True].index.tolist()] = 1
      imp = self.num_imputer_dic[column]
      data[column] = imp.transform(data[column])
  \<close>
  \<^verbatim>\<open>data[column].isnull().values is True\<close> compares the identity of an array with the
  object \<^verbatim>\<open>True\<close>: it is \<^verbatim>\<open>False\<close>, whatever the column holds, and the column is then
  indexed with this scalar.
\<close>

definition transform_column :: "na_filler \<times> table \<Rightarrow> string \<Rightarrow> (na_filler \<times> table) outcome" where
  "transform_column s column =
     (let self = fst s; data = snd s
      in case dtypes data column of
           Inl e \<Rightarrow> Raised e s
         | Inr d \<Rightarrow>
             if d \<notin> set [Float64, Int64]
             then Returned (self, setitem data column Object
                                    (fillna (column_values data column) (Str ''missing'')))
             else
               (let flag = column @ ''_flag'';
                    data1 = setitem data flag Float64 (np_zeros (length (column_values data column)));
                    values_is_True = False
                in case series_getitem_bool (index data1) (column_values data1 column)
                          values_is_True of
                     Inl e \<Rightarrow> Raised e (self, data1)
                   | Inr selected \<Rightarrow>
                       (case series_setitem (index data1) (column_values data1 flag)
                               (map fst selected) (Num 1) of
                          Inl e \<Rightarrow> Raised e (self, data1)
                        | Inr flags \<Rightarrow>
                            (let data2 = setitem data1 flag Float64 flags
                             in case num_imputer_dic self column of
                                  None \<Rightarrow> Raised KeyError (self, data2)
                                | Some imp \<Rightarrow>
                                    (case imputer_transform_series imp (column_values data2 column) of
                                       Inl e \<Rightarrow> Raised e (self, data2)
                                     | Inr filled \<Rightarrow>
                                         Returned (self, setitem data2 column Float64 filled))))))"

fun transform_loop :: "na_filler \<times> table \<Rightarrow> string list \<Rightarrow> (na_filler \<times> table) outcome" where
  "transform_loop s [] = Returned s"
| "transform_loop s (column # column_list) =
     (case transform_column s column of
        Raised e s' \<Rightarrow> Raised e s'
      | Returned s' \<Rightarrow> transform_loop s' column_list)"

definition transform :: "na_filler \<Rightarrow> table \<Rightarrow> string list \<Rightarrow> (na_filler \<times> table) outcome" where
  "transform self data column_list = transform_loop (self, data) column_list"

subsection \<open>Outlier detection with the isolation forest\<close>

text \<open>
  \<open>isolation_forest\<close> fills the missing values of its frame (all columns), takes the
  feature columns, encodes and scores them, and runs \<open>mean_detection\<close> on the scores.
  The encoding (module \<^verbatim>\<open>feature_engineering\<close>) and sklearn's \<^verbatim>\<open>IsolationForest\<close> are
  the parameter \<open>score\<close>, from the filled frame and its feature columns to one score
  per row, a finite double, or to the exception they raise. The report printed at the
  end divides by the number of scores.
\<close>

type_synonym scorer = "table \<Rightarrow> table \<Rightarrow> error + real list"

definition isolation_forest :: "scorer \<Rightarrow> table \<Rightarrow> string \<Rightarrow> string list \<Rightarrow> error + nat list" where
  "isolation_forest score self_data target_column id_columns =
     (case fit_transform (NaFiller ''mean'') self_data (column_names self_data) of
        Raised e s \<Rightarrow> Inl e
      | Returned s \<Rightarrow>
          (let data = snd s
           in case list_remove (column_names data) target_column of
                Inl e \<Rightarrow> Inl e
              | Inr fc \<Rightarrow>
                  (let feature_column = remove_present fc id_columns
                   in case select_columns data feature_column of
                        Inl e \<Rightarrow> Inl e
                      | Inr features \<Rightarrow>
                          (case score data features of
                             Inl e \<Rightarrow> Inl e
                           | Inr feature_score \<Rightarrow>
                               (let outlier_index = mean_detection (map Finite feature_score)
                                in if feature_score = [] then Inl ZeroDivisionError
                                   else Inr outlier_index)))))"

subsection \<open>Washing\<close>

text \<open>
  \<^verbatim>\<open>drop_duplicates(keep='first')\<close> keeps a row unless an earlier row has the same
  cells (two missing cells count as the same). \<^verbatim>\<open>dropna(thresh=k)\<close> keeps the rows
  with at least \<open>k\<close> cells that are not missing. \<^verbatim>\<open>drop(labels, axis=0)\<close> removes the
  rows whose index label is in the list, and raises when a label is not in the index.
  All three keep the index labels of the rows they keep.
\<close>

fun keep_first :: "cell list list \<Rightarrow> (int \<times> cell list) list \<Rightarrow> (int \<times> cell list) list" where
  "keep_first seen [] = []"
| "keep_first seen (row # rest) =
     (if snd row \<in> set seen then keep_first seen rest
      else row # keep_first (snd row # seen) rest)"

definition drop_duplicates :: "table \<Rightarrow> table" where
  "drop_duplicates data = data\<lparr>rows := keep_first [] (rows data)\<rparr>"

definition count_present :: "cell list \<Rightarrow> nat" where
  "count_present cells = length (filter (\<lambda>c. c \<noteq> NaN) cells)"

definition dropna :: "table \<Rightarrow> int \<Rightarrow> table" where
  "dropna data thresh =
     data\<lparr>rows := filter (\<lambda>row. thresh \<le> int (count_present (snd row))) (rows data)\<rparr>"

definition drop_labels :: "table \<Rightarrow> int list \<Rightarrow> error + table" where
  "drop_labels data labels =
     (if set labels \<subseteq> set (index data)
      then Inr (data\<lparr>rows := filter (\<lambda>row. fst row \<notin> set labels) (rows data)\<rparr>)
      else Inl KeyError)"

text \<open>
  \<^verbatim>\<open>
  for element in id_columns:
      feature_column.remove(element)
  \<close>
\<close>

fun remove_each :: "string list \<Rightarrow> string list \<Rightarrow> error + string list" where
  "remove_each feature_column [] = Inr feature_column"
| "remove_each feature_column (element # id_columns) =
     (case list_remove feature_column element of
        Inl e \<Rightarrow> Inl e
      | Inr fc \<Rightarrow> remove_each fc id_columns)"

text \<open>
  \<^verbatim>\<open>
  data = data.drop_duplicates(keep='first')
  percent = 0.6
  data = data.dropna(thresh=int(data.shape[1]*percent))
  outlier_detector = OutlierDetector(data.copy(), target_column, id_columns)
  outlier_index = outlier_detector.isolation_forest()
  if not outlier:
      print('The row index of outliers is as follows: %s' % (str(outlier_index)))
  else:
      data.drop(outlier_index, axis=0, inplace=True)
  feature_column = data.columns.tolist()
  for element in id_columns:
      feature_column.remove(element)
  data = data[feature_column]
  return data
  \<close>
  The detector works on a copy, so what it fills and flags does not reach \<open>data\<close>.
  The threshold \<^verbatim>\<open>int(ncols * 0.6)\<close> is \<open>\<lfloor>6 * ncols / 10\<rfloor>\<close>: the product in doubles is
  \<open>6 * ncols / 10\<close> when that is an integer, and it is not near an integer otherwise.
\<close>

definition wash_data :: "scorer \<Rightarrow> table \<Rightarrow> string \<Rightarrow> string list \<Rightarrow> bool \<Rightarrow> error + table" where
  "wash_data score data0 target_column id_columns outlier =
     (let data1 = drop_duplicates data0;
          percent = 6 / 10;
          data2 = dropna data1 \<lfloor>real (length (columns data1)) * percent\<rfloor>
      in case isolation_forest score data2 target_column id_columns of
           Inl e \<Rightarrow> Inl e
         | Inr outlier_index \<Rightarrow>
             (case (if \<not> outlier then Inr data2 else drop_labels data2 (map int outlier_index)) of
                Inl e \<Rightarrow> Inl e
              | Inr data3 \<Rightarrow>
                  (case remove_each (column_names data3) id_columns of
                     Inl e \<Rightarrow> Inl e
                   | Inr feature_column \<Rightarrow> select_columns data3 feature_column)))"

section \<open>Example frames\<close>

text \<open>
  A hundred rows of the majority class; the same with ten rows of the minority class
  after them. \<open>x\<close> is a feature, \<open>y\<close> the target.
\<close>

definition majority_rows :: table where
  "majority_rows =
     \<lparr>columns = [(''x'', Float64), (''y'', Int64)],
      rows = zip (map int [0..<100]) (replicate 100 [Num 1, Num 0])\<rparr>"

definition imbalanced :: table where
  "imbalanced =
     \<lparr>columns = [(''x'', Float64), (''y'', Int64)],
      rows = zip (map int [0..<110])
               (replicate 100 [Num 1, Num 0] @ replicate 10 [Num 2, Num 1])\<rparr>"

text \<open>
  A numeric column with a missing value in the middle, on the default index; and a
  numeric column whose last value is missing, on the index a frame has after its second
  row was dropped.
\<close>

definition one_gap :: table where
  "one_gap =
     \<lparr>columns = [(''x'', Float64)],
      rows = [(0, [Num 1]), (1, [NaN]), (2, [Num 3])]\<rparr>"

definition after_row_drop :: table where
  "after_row_drop =
     \<lparr>columns = [(''x'', Float64)],
      rows = [(0, [Num 5]), (2, [Num 6]), (3, [NaN])]\<rparr>"

text \<open>The filler after it has fitted the column \<open>x\<close> with the mean \<open>m\<close>.\<close>

definition fitted_mean :: "real \<Rightarrow> na_filler" where
  "fitted_mean m =
     \<lparr>numeric_method = ''mean'',
      num_imputer_dic = [''x'' \<mapsto> \<lparr>strategy = ''mean'', statistics = Finite m\<rparr>]\<rparr>"

text \<open>
  A frame with a string column and two numeric columns, each with a missing value; the
  frame \<open>transform\<close> leaves of it when it is asked for all three columns; and a filler
  that has fitted both numeric columns.
\<close>

definition mixed :: table where
  "mixed =
     \<lparr>columns = [(''s'', Object), (''a'', Float64), (''b'', Float64)],
      rows = [(0, [Str ''u'', Num 1, NaN]), (1, [NaN, NaN, Num 4])]\<rparr>"

definition mixed_left :: table where
  "mixed_left =
     \<lparr>columns = [(''s'', Object), (''a'', Float64), (''b'', Float64), (''a_flag'', Float64)],
      rows = [(0, [Str ''u'', Num 1, NaN, Num 0]), (1, [Str ''missing'', NaN, Num 4, Num 0])]\<rparr>"

definition fitted_ab :: na_filler where
  "fitted_ab =
     \<lparr>numeric_method = ''mean'',
      num_imputer_dic = [''a'' \<mapsto> \<lparr>strategy = ''mean'', statistics = Finite 1\<rparr>,
                         ''b'' \<mapsto> \<lparr>strategy = ''mean'', statistics = Finite 4\<rparr>]\<rparr>"

text \<open>
  Stand-ins for the isolation forest: \<open>flat_scorer\<close> gives every row the score 0,
  \<open>spike_scorer\<close> gives the rows whose first feature is 100 the score -13 and every
  other row the score 0. \<open>spike_scores\<close> is what \<open>spike_scorer\<close> gives for twelve
  ordinary rows followed by one row with the feature 100.
\<close>

definition flat_scorer :: scorer where
  "flat_scorer data features = Inr (map (\<lambda>row. 0) (rows features))"

definition spike_scorer :: scorer where
  "spike_scorer data features =
     Inr (map (\<lambda>row. if hd (snd row) = Num 100 then - 13 else 0) (rows features))"

definition spike_scores :: "real list" where
  "spike_scores = [0, 0, 0, 0, 0, 0, 0, 0, 0, 0, 0, 0, - 13]"

text \<open>
  Fourteen rows on the default index, with an id, a feature \<open>x\<close> and the target \<open>y\<close>:
  the second row repeats the first, the last row has the feature 100. \<open>deduplicated\<close>
  is what the removal of duplicates and of sparse rows leaves of it: the labels 0, 2, ...,
  13, so the row with the feature 100 is at position 12 and has the label 13.
  \<open>washed_all\<close> are these rows without the id, \<open>washed_gap\<close> the same without the
  row labelled 12.
\<close>

definition with_duplicate :: table where
  "with_duplicate =
     \<lparr>columns = [(''id'', Int64), (''x'', Float64), (''y'', Int64)],
      rows =
       [(0, [Num 1, Num 1, Num 0]), (1, [Num 1, Num 1, Num 0]), (2, [Num 2, Num 1, Num 0]),
        (3, [Num 3, Num 1, Num 0]), (4, [Num 4, Num 1, Num 0]), (5, [Num 5, Num 1, Num 0]),
        (6, [Num 6, Num 1, Num 0]), (7, [Num 7, Num 1, Num 0]), (8, [Num 8, Num 1, Num 0]),
        (9, [Num 9, Num 1, Num 0]), (10, [Num 10, Num 1, Num 0]),
        (11, [Num 11, Num 1, Num 0]), (12, [Num 12, Num 1, Num 0]),
        (13, [Num 13, Num 100, Num 1])]\<rparr>"

definition deduplicated :: table where
  "deduplicated =
     \<lparr>columns = [(''id'', Int64), (''x'', Float64), (''y'', Int64)],
      rows =
       [(0, [Num 1, Num 1, Num 0]), (2, [Num 2, Num 1, Num 0]), (3, [Num 3, Num 1, Num 0]),
        (4, [Num 4, Num 1, Num 0]), (5, [Num 5, Num 1, Num 0]), (6, [Num 6, Num 1, Num 0]),
        (7, [Num 7, Num 1, Num 0]), (8, [Num 8, Num 1, Num 0]), (9, [Num 9, Num 1, Num 0]),
        (10, [Num 10, Num 1, Num 0]), (11, [Num 11, Num 1, Num 0]),
        (12, [Num 12, Num 1, Num 0]), (13, [Num 13, Num 100, Num 1])]\<rparr>"

definition washed_all :: table where
  "washed_all =
     \<lparr>columns = [(''x'', Float64), (''y'', Int64)],
      rows =
       [(0, [Num 1, Num 0]), (2, [Num 1, Num 0]), (3, [Num 1, Num 0]), (4, [Num 1, Num 0]),
        (5, [Num 1, Num 0]), (6, [Num 1, Num 0]), (7, [Num 1, Num 0]), (8, [Num 1, Num 0]),
        (9, [Num 1, Num 0]), (10, [Num 1, Num 0]), (11, [Num 1, Num 0]),
        (12, [Num 1, Num 0]), (13, [Num 100, Num 1])]\<rparr>"

definition washed_gap :: table where
  "washed_gap =
     \<lparr>columns = [(''x'', Float64), (''y'', Int64)],
      rows =
       [(0, [Num 1, Num 0]), (2, [Num 1, Num 0]), (3, [Num 1, Num 0]), (4, [Num 1, Num 0]),
        (5, [Num 1, Num 0]), (6, [Num 1, Num 0]), (7, [Num 1, Num 0]), (8, [Num 1, Num 0]),
        (9, [Num 1, Num 0]), (10, [Num 1, Num 0]), (11, [Num 1, Num 0]),
        (13, [Num 100, Num 1])]\<rparr>"

text \<open>
  The same thirteen rows on the default index 0, ..., 12 with nothing to clean, and the
  frame without the id and without the row labelled 12, which is the one at position 12.
\<close>

definition plain :: table where
  "plain =
     \<lparr>columns = [(''id'', Int64), (''x'', Float64), (''y'', Int64)],
      rows =
       [(0, [Num 1, Num 1, Num 0]), (1, [Num 2, Num 1, Num 0]), (2, [Num 3, Num 1, Num 0]),
        (3, [Num 4, Num 1, Num 0]), (4, [Num 5, Num 1, Num 0]), (5, [Num 6, Num 1, Num 0]),
        (6, [Num 7, Num 1, Num 0]), (7, [Num 8, Num 1, Num 0]), (8, [Num 9, Num 1, Num 0]),
        (9, [Num 10, Num 1, Num 0]), (10, [Num 11, Num 1, Num 0]),
        (11, [Num 12, Num 1, Num 0]), (12, [Num 13, Num 100, Num 1])]\<rparr>"

definition washed_plain :: table where
  "washed_plain =
     \<lparr>columns = [(''x'', Float64), (''y'', Int64)],
      rows =
       [(0, [Num 1, Num 0]), (1, [Num 1, Num 0]), (2, [Num 1, Num 0]), (3, [Num 1, Num 0]),
        (4, [Num 1, Num 0]), (5, [Num 1, Num 0]), (6, [Num 1, Num 0]), (7, [Num 1, Num 0]),
        (8, [Num 1, Num 0]), (9, [Num 1, Num 0]), (10, [Num 1, Num 0]),
        (11, [Num 1, Num 0])]\<rparr>"

text \<open>
  Four columns, one of them an id: the first two rows differ in the id only, the third
  has two of its four cells missing. \<open>sparse_dup_out\<close> is the frame without the id.
\<close>

definition sparse_dup :: table where
  "sparse_dup =
     \<lparr>columns = [(''id'', Int64), (''a'', Float64), (''b'', Float64), (''y'', Int64)],
      rows =
       [(0, [Num 1, Num 5, Num 7, Num 0]),
        (1, [Num 2, Num 5, Num 7, Num 0]),
        (2, [Num 3, NaN, NaN, Num 1]),
        (3, [Num 4, Num 6, Num 8, Num 1])]\<rparr>"

definition sparse_dup_out :: table where
  "sparse_dup_out =
     \<lparr>columns = [(''a'', Float64), (''b'', Float64), (''y'', Int64)],
      rows =
       [(0, [Num 5, Num 7, Num 0]),
        (1, [Num 5, Num 7, Num 0]),
        (2, [NaN, NaN, Num 1]),
        (3, [Num 6, Num 8, Num 1])]\<rparr>"

text \<open>
  Five columns and no id: the fourth row repeats the first, the fifth has three of its
  five cells missing. \<open>small_out\<close> holds the first three rows.
\<close>

definition small_frame :: table where
  "small_frame =
     \<lparr>columns = [(''a'', Float64), (''b'', Float64), (''c'', Float64), (''d'', Float64),
                 (''y'', Int64)],
      rows =
       [(0, [Num 1, Num 2, Num 3, Num 4, Num 0]),
        (1, [Num 5, Num 6, Num 7, Num 8, Num 1]),
        (2, [Num 2, NaN, Num 3, Num 4, Num 1]),
        (3, [Num 1, Num 2, Num 3, Num 4, Num 0]),
        (4, [NaN, NaN, NaN, Num 5, Num 1])]\<rparr>"

definition small_out :: table where
  "small_out =
     \<lparr>columns = [(''a'', Float64), (''b'', Float64), (''c'', Float64), (''d'', Float64),
                 (''y'', Int64)],
      rows =
       [(0, [Num 1, Num 2, Num 3, Num 4, Num 0]),
        (1, [Num 5, Num 6, Num 7, Num 8, Num 1]),
        (2, [Num 2, NaN, Num 3, Num 4, Num 1])]\<rparr>"

text \<open>
  Nine scores 0 and one score 7: the last one is 7, and mean + 3 std of the ten numbers
  is 0.7 + 3 * 2.1, which is 7 as well.
\<close>

definition boundary_values :: "real list" where
  "boundary_values = [0, 0, 0, 0, 0, 0, 0, 0, 0, 7]"

text \<open>
  The scores \<open>spike_scorer\<close> gives for one row with the feature 100 followed by
  twelve ordinary rows.
\<close>

definition first_scores :: "real list" where
  "first_scores = [- 13, 0, 0, 0, 0, 0, 0, 0, 0, 0, 0, 0, 0]"

text \<open>
  Fourteen rows on the default index where the first row has the feature 100 and the
  third row repeats the second. \<open>flagged_first_cleaned\<close> is what the removal of
  duplicates and of sparse rows leaves of it, with the labels 0, 1, 3, ..., 13;
  \<open>washed_first\<close> are these rows without the id and without the first row.
\<close>

definition flagged_first :: table where
  "flagged_first =
     \<lparr>columns = [(''id'', Int64), (''x'', Float64), (''y'', Int64)],
      rows =
       [(0, [Num 1, Num 100, Num 1]), (1, [Num 2, Num 1, Num 0]), (2, [Num 2, Num 1, Num 0]),
        (3, [Num 3, Num 1, Num 0]), (4, [Num 4, Num 1, Num 0]), (5, [Num 5, Num 1, Num 0]),
        (6, [Num 6, Num 1, Num 0]), (7, [Num 7, Num 1, Num 0]), (8, [Num 8, Num 1, Num 0]),
        (9, [Num 9, Num 1, Num 0]), (10, [Num 10, Num 1, Num 0]),
        (11, [Num 11, Num 1, Num 0]), (12, [Num 12, Num 1, Num 0]),
        (13, [Num 13, Num 1, Num 0])]\<rparr>"

definition flagged_first_cleaned :: table where
  "flagged_first_cleaned =
     \<lparr>columns = [(''id'', Int64), (''x'', Float64), (''y'', Int64)],
      rows =
       [(0, [Num 1, Num 100, Num 1]), (1, [Num 2, Num 1, Num 0]), (3, [Num 3, Num 1, Num 0]),
        (4, [Num 4, Num 1, Num 0]), (5, [Num 5, Num 1, Num 0]), (6, [Num 6, Num 1, Num 0]),
        (7, [Num 7, Num 1, Num 0]), (8, [Num 8, Num 1, Num 0]), (9, [Num 9, Num 1, Num 0]),
        (10, [Num 10, Num 1, Num 0]), (11, [Num 11, Num 1, Num 0]),
        (12, [Num 12, Num 1, Num 0]), (13, [Num 13, Num 1, Num 0])]\<rparr>"

definition washed_first :: table where
  "washed_first =
     \<lparr>columns = [(''x'', Float64), (''y'', Int64)],
      rows =
       [(1, [Num 1, Num 0]), (3, [Num 1, Num 0]), (4, [Num 1, Num 0]), (5, [Num 1, Num 0]),
        (6, [Num 1, Num 0]), (7, [Num 1, Num 0]), (8, [Num 1, Num 0]), (9, [Num 1, Num 0]),
        (10, [Num 1, Num 0]), (11, [Num 1, Num 0]), (12, [Num 1, Num 0]),
        (13, [Num 1, Num 0])]\<rparr>"

section \<open>Properties\<close>

subsection \<open>Rounding to the nearest double\<close>

text \<open>Rounding to the nearest integer, and the binary exponent of a number.\<close>

lemma round_half_even_of_int [simp]: "round_half_even (of_int k) = k"
  by (simp add: round_half_even_def)

lemma round_half_even_0 [simp]: "round_half_even 0 = 0"
  using round_half_even_of_int [of 0] by simp

lemma round_half_even_cases:
  "round_half_even x = \<lfloor>x\<rfloor> \<and> x - of_int \<lfloor>x\<rfloor> \<le> 1 / 2
   \<or> round_half_even x = \<lfloor>x\<rfloor> + 1 \<and> 1 / 2 \<le> x - of_int \<lfloor>x\<rfloor>"
  by (auto simp: round_half_even_def Let_def)

lemma round_half_even_mono:
  assumes "x \<le> y"
  shows "round_half_even x \<le> round_half_even y"
proof (cases "\<lfloor>x\<rfloor> = \<lfloor>y\<rfloor>")
  case True
  then show ?thesis
    using assms by (auto simp: round_half_even_def Let_def)
next
  case False
  with assms have "\<lfloor>x\<rfloor> + 1 \<le> \<lfloor>y\<rfloor>"
    using floor_mono [OF assms] by linarith
  moreover have "round_half_even x \<le> \<lfloor>x\<rfloor> + 1"
    using round_half_even_cases [of x] by auto
  moreover have "\<lfloor>y\<rfloor> \<le> round_half_even y"
    using round_half_even_cases [of y] by auto
  ultimately show ?thesis by linarith
qed

lemma round_half_even_eqI:
  assumes "of_int n - 1 / 2 < x" and "x < of_int n + 1 / 2"
  shows "round_half_even x = n"
proof (cases "of_int n \<le> x")
  case True
  then have "\<lfloor>x\<rfloor> = n" using assms(2) by (intro floor_unique) auto
  then show ?thesis using assms(2) by (simp add: round_half_even_def Let_def)
next
  case False
  then have "\<lfloor>x\<rfloor> = n - 1" using assms(1) by (intro floor_unique) auto
  then show ?thesis using assms(1) by (simp add: round_half_even_def Let_def)
qed

lemma ulp_pos [simp]: "0 < ulp x"
  by (simp add: ulp_def)

lemma ulp_nonneg [simp]: "0 \<le> ulp x"
  using ulp_pos [of x] by (rule less_imp_le)

lemma exponent_ge: "- 1022 \<le> exponent x"
  by (simp add: exponent_def)

lemma floor_log2_bounds:
  assumes "x \<noteq> 0"
  shows "2 powi \<lfloor>log 2 \<bar>x\<bar>\<rfloor> \<le> \<bar>x\<bar>" and "\<bar>x\<bar> < 2 powi (\<lfloor>log 2 \<bar>x\<bar>\<rfloor> + 1)"
proof -
  have pos: "0 < \<bar>x\<bar>" using assms by simp
  have "2 powr real_of_int \<lfloor>log 2 \<bar>x\<bar>\<rfloor> \<le> \<bar>x\<bar>
        \<and> \<bar>x\<bar> < 2 powr real_of_int (\<lfloor>log 2 \<bar>x\<bar>\<rfloor> + 1)"
    using floor_log_eq_powr_iff [OF pos, of 2 "\<lfloor>log 2 \<bar>x\<bar>\<rfloor>"] by simp
  then show "2 powi \<lfloor>log 2 \<bar>x\<bar>\<rfloor> \<le> \<bar>x\<bar>" and "\<bar>x\<bar> < 2 powi (\<lfloor>log 2 \<bar>x\<bar>\<rfloor> + 1)"
    by (simp_all only: powr_real_of_int' [of 2, simplified])
qed

lemma exponent_upper:
  assumes "x \<noteq> 0"
  shows "\<bar>x\<bar> < 2 powi (exponent x + 1)"
proof -
  have "\<bar>x\<bar> < 2 powi (\<lfloor>log 2 \<bar>x\<bar>\<rfloor> + 1)" using assms by (rule floor_log2_bounds)
  also have "\<dots> \<le> 2 powi (exponent x + 1)"
    by (rule power_int_increasing) (simp_all add: exponent_def)
  finally show ?thesis .
qed

lemma exponent_lower:
  assumes "x \<noteq> 0" and "- 1022 < exponent x"
  shows "2 powi exponent x \<le> \<bar>x\<bar>"
proof -
  have "exponent x = \<lfloor>log 2 \<bar>x\<bar>\<rfloor>" using assms(2) by (simp add: exponent_def max_def split: if_splits)
  then show ?thesis using floor_log2_bounds(1) [OF assms(1)] by simp
qed

lemma exponent_eqI:
  assumes "2 powi e \<le> \<bar>x\<bar>" and "\<bar>x\<bar> < 2 powi (e + 1)" and "- 1022 \<le> e"
  shows "exponent x = e"
proof -
  have pos: "0 < \<bar>x\<bar>" using assms(1) by (smt (verit) zero_less_power_int)
  have "\<lfloor>log 2 \<bar>x\<bar>\<rfloor> = e"
    using floor_log_eq_powr_iff [OF pos, of 2 e] assms(1,2)
    by (simp only: powr_real_of_int' [of 2, simplified])
  with assms(3) show ?thesis by (simp add: exponent_def)
qed

lemma exponent_mono:
  assumes "x \<noteq> 0" and "\<bar>x\<bar> \<le> \<bar>y\<bar>"
  shows "exponent x \<le> exponent y"
proof -
  have "log 2 \<bar>x\<bar> \<le> log 2 \<bar>y\<bar>" using assms by (intro log_mono) auto
  then have "\<lfloor>log 2 \<bar>x\<bar>\<rfloor> \<le> \<lfloor>log 2 \<bar>y\<bar>\<rfloor>" by (rule floor_mono)
  then show ?thesis by (simp add: exponent_def)
qed

lemma round_real_0 [simp]: "round_real 0 = 0"
  by (simp add: round_real_def)

lemma round_real_nonneg:
  assumes "0 \<le> x"
  shows "0 \<le> round_real x"
proof -
  have "0 \<le> x / ulp x" using assms by simp
  then have "0 \<le> round_half_even (x / ulp x)"
    using round_half_even_mono [of 0 "x / ulp x"] by simp
  then show ?thesis by (simp add: round_real_def)
qed

lemma round_real_nonpos:
  assumes "x \<le> 0"
  shows "round_real x \<le> 0"
proof -
  have "x / ulp x \<le> 0" using assms by (simp add: divide_le_0_iff)
  then have "round_half_even (x / ulp x) \<le> 0"
    using round_half_even_mono [of "x / ulp x" 0] by simp
  then show ?thesis by (simp add: round_real_def mult_le_0_iff)
qed

lemma ulp_scale:
  "(2::real) powi (exponent x + 1) = 2 ^ 53 * ulp x"
  "(2::real) powi exponent x = 2 ^ 52 * ulp x"
proof -
  have "(2::real) powi (53 + (exponent x - 52)) = 2 powi 53 * 2 powi (exponent x - 52)"
    by (rule power_int_add) simp
  moreover have "53 + (exponent x - 52) = exponent x + 1" by simp
  ultimately show "(2::real) powi (exponent x + 1) = 2 ^ 53 * ulp x"
    by (simp only: ulp_def power_int_numeral)
  have "(2::real) powi (52 + (exponent x - 52)) = 2 powi 52 * 2 powi (exponent x - 52)"
    by (rule power_int_add) simp
  moreover have "52 + (exponent x - 52) = exponent x" by simp
  ultimately show "(2::real) powi exponent x = 2 ^ 52 * ulp x"
    by (simp only: ulp_def power_int_numeral)
qed

text \<open>Below the next power of two, a value rounds to at most that power; from a power of
  two on, to at least that power.\<close>

lemma round_real_le_next:
  assumes "x \<noteq> 0"
  shows "round_real x \<le> 2 powi (exponent x + 1)"
proof -
  have "x < 2 ^ 53 * ulp x"
    using exponent_upper [OF assms] unfolding ulp_scale by linarith
  then have "x / ulp x \<le> of_int (2 ^ 53)" by (simp add: pos_divide_le_eq)
  then have "round_half_even (x / ulp x) \<le> 2 ^ 53"
    using round_half_even_mono [of "x / ulp x" "of_int (2 ^ 53)"]
    by (simp only: round_half_even_of_int)
  then have "real_of_int (round_half_even (x / ulp x)) \<le> 2 ^ 53"
    by (metis of_int_le_iff of_int_numeral of_int_power)
  then have "round_real x \<le> 2 ^ 53 * ulp x"
    unfolding round_real_def by (intro mult_right_mono) simp_all
  then show ?thesis unfolding ulp_scale by linarith
qed

lemma round_real_ge_prev:
  assumes "x \<noteq> 0"
  shows "- (2 powi (exponent x + 1)) \<le> round_real x"
proof -
  have "- (2 ^ 53 * ulp x) < x"
    using exponent_upper [OF assms] unfolding ulp_scale by linarith
  then have "of_int (- (2 ^ 53)) \<le> x / ulp x" by (simp add: pos_le_divide_eq)
  then have "- (2 ^ 53) \<le> round_half_even (x / ulp x)"
    using round_half_even_mono [of "of_int (- (2 ^ 53))" "x / ulp x"]
    by (simp only: round_half_even_of_int)
  then have "- (2 ^ 53) \<le> real_of_int (round_half_even (x / ulp x))"
    by (metis of_int_le_iff of_int_numeral of_int_power of_int_minus)
  then have "- (2 ^ 53) * ulp x \<le> round_real x"
    unfolding round_real_def by (intro mult_right_mono) simp_all
  then show ?thesis unfolding ulp_scale by linarith
qed

lemma round_real_ge_power:
  assumes "0 < x" and "- 1022 < exponent x"
  shows "2 powi exponent x \<le> round_real x"
proof -
  have "x \<noteq> 0" using assms(1) by simp
  then have "2 ^ 52 * ulp x \<le> x"
    using exponent_lower [OF _ assms(2)] assms(1) unfolding ulp_scale by linarith
  then have "of_int (2 ^ 52) \<le> x / ulp x" by (simp add: pos_le_divide_eq)
  then have "2 ^ 52 \<le> round_half_even (x / ulp x)"
    using round_half_even_mono [of "of_int (2 ^ 52)" "x / ulp x"]
    by (simp only: round_half_even_of_int)
  then have "2 ^ 52 \<le> real_of_int (round_half_even (x / ulp x))"
    by (metis of_int_le_iff of_int_numeral of_int_power)
  then have "2 ^ 52 * ulp x \<le> round_real x"
    unfolding round_real_def by (intro mult_right_mono) simp_all
  then show ?thesis unfolding ulp_scale by linarith
qed

lemma round_real_le_power:
  assumes "x < 0" and "- 1022 < exponent x"
  shows "round_real x \<le> - (2 powi exponent x)"
proof -
  have "x \<noteq> 0" using assms(1) by simp
  then have "x \<le> - (2 ^ 52 * ulp x)"
    using exponent_lower [OF _ assms(2)] assms(1) unfolding ulp_scale by linarith
  then have "x / ulp x \<le> of_int (- (2 ^ 52))" by (simp add: pos_divide_le_eq)
  then have "round_half_even (x / ulp x) \<le> - (2 ^ 52)"
    using round_half_even_mono [of "x / ulp x" "of_int (- (2 ^ 52))"]
    by (simp only: round_half_even_of_int)
  then have "real_of_int (round_half_even (x / ulp x)) \<le> - (2 ^ 52)"
    by (metis of_int_le_iff of_int_numeral of_int_power of_int_minus)
  then have "round_real x \<le> - (2 ^ 52) * ulp x"
    unfolding round_real_def by (intro mult_right_mono) simp_all
  then show ?thesis unfolding ulp_scale by linarith
qed

lemma round_real_mono_same:
  assumes "x \<le> y" and "exponent x = exponent y"
  shows "round_real x \<le> round_real y"
proof -
  have u: "ulp x = ulp y" using assms(2) by (simp add: ulp_def)
  have "x / ulp y \<le> y / ulp y" using assms(1) by (simp add: divide_right_mono)
  then have "round_half_even (x / ulp y) \<le> round_half_even (y / ulp y)"
    by (rule round_half_even_mono)
  then show ?thesis by (simp add: round_real_def u)
qed

lemma round_real_mono:
  assumes "x \<le> y"
  shows "round_real x \<le> round_real y"
proof -
  consider "x \<le> 0" "0 \<le> y" | "0 < x" | "y < 0" using assms by linarith
  then show ?thesis
  proof cases
    case 1
    then show ?thesis using round_real_nonpos [of x] round_real_nonneg [of y] by linarith
  next
    case 2
    then have y: "0 < y" using assms by simp
    have le: "exponent x \<le> exponent y"
      using 2 assms by (intro exponent_mono) auto
    show ?thesis
    proof (cases "exponent x = exponent y")
      case True
      with assms show ?thesis by (rule round_real_mono_same)
    next
      case False
      with le have lt: "exponent x + 1 \<le> exponent y" by simp
      then have "- 1022 < exponent y" using exponent_ge [of x] by linarith
      with y have "2 powi exponent y \<le> round_real y" by (rule round_real_ge_power)
      moreover have "round_real x \<le> 2 powi (exponent x + 1)"
        using 2 by (intro round_real_le_next) simp
      moreover have "(2::real) powi (exponent x + 1) \<le> 2 powi exponent y"
        using lt by (intro power_int_increasing) simp_all
      ultimately show ?thesis by linarith
    qed
  next
    case 3
    then have x: "x < 0" using assms by simp
    have le: "exponent y \<le> exponent x"
      using 3 assms by (intro exponent_mono) auto
    show ?thesis
    proof (cases "exponent x = exponent y")
      case True
      with assms show ?thesis by (rule round_real_mono_same)
    next
      case False
      with le have lt: "exponent y + 1 \<le> exponent x" by simp
      then have "- 1022 < exponent x" using exponent_ge [of y] by linarith
      with x have "round_real x \<le> - (2 powi exponent x)" by (rule round_real_le_power)
      moreover have "- (2 powi (exponent y + 1)) \<le> round_real y"
        using 3 by (intro round_real_ge_prev) simp
      moreover have "(2::real) powi (exponent y + 1) \<le> 2 powi exponent x"
        using lt by (intro power_int_increasing) simp_all
      ultimately show ?thesis by linarith
    qed
  qed
qed


text \<open>A number with a 53-bit significand and an exponent in range is a double.\<close>

lemma round_real_exact:
  assumes "x = of_int m * 2 powi k" and "\<bar>m\<bar> < 2 ^ 53" and "- 1074 \<le> k"
  shows "round_real x = x"
proof (cases "m = 0")
  case True
  with assms(1) show ?thesis by simp
next
  case False
  then have m1: "1 \<le> \<bar>real_of_int m\<bar>" by linarith
  have m2: "\<bar>real_of_int m\<bar> < 2 ^ 53"
    using assms(2) by (metis of_int_abs of_int_less_iff of_int_numeral of_int_power)
  have absx: "\<bar>x\<bar> = \<bar>real_of_int m\<bar> * 2 powi k"
    by (simp add: assms(1) abs_mult)
  have x0: "x \<noteq> 0" using False assms(1) by simp
  have "\<bar>x\<bar> < 2 ^ 53 * 2 powi k"
    unfolding absx using m2 by (intro mult_strict_right_mono) simp_all
  also have "\<dots> = 2 powi (53 + k)"
    using power_int_add [of "2::real" 53 k] by simp
  finally have up: "\<bar>x\<bar> < 2 powi (53 + k)" .
  have "\<lfloor>log 2 \<bar>x\<bar>\<rfloor> < 53 + k"
  proof (rule ccontr)
    assume "\<not> \<lfloor>log 2 \<bar>x\<bar>\<rfloor> < 53 + k"
    then have "(2::real) powi (53 + k) \<le> 2 powi \<lfloor>log 2 \<bar>x\<bar>\<rfloor>"
      by (intro power_int_increasing) simp_all
    with floor_log2_bounds(1) [OF x0] up show False by linarith
  qed
  then have "exponent x - 52 \<le> k"
    using assms(3) by (simp add: exponent_def)
  then obtain d where d: "k = int d + (exponent x - 52)"
    by (metis diff_add_cancel zero_le_imp_eq_int diff_ge_0_iff_ge)
  define u where "u = ulp x"
  have u: "0 < u" by (simp add: u_def)
  have "(2::real) powi k = 2 powi int d * 2 powi (exponent x - 52)"
    unfolding d by (rule power_int_add) simp
  then have pk: "(2::real) powi k = 2 ^ d * u"
    by (simp add: ulp_def u_def)
  have xu: "x = of_int (m * 2 ^ d) * u"
    by (simp add: assms(1) pk)
  then have "x / u = of_int (m * 2 ^ d)"
    using u by simp
  then have "round_half_even (x / u) = m * 2 ^ d"
    by (simp only: round_half_even_of_int)
  then have "round_real x = of_int (m * 2 ^ d) * u"
    by (simp only: round_real_def u_def)
  with xu show ?thesis by simp
qed

lemma round_double_exact:
  assumes "x = of_int m * 2 powi k" and "\<bar>m\<bar> < 2 ^ 53" and "- 1074 \<le> k"
    and "\<bar>x\<bar> < 2 ^ 1024"
  shows "round_double x = Finite x"
  using round_real_exact [OF assms(1-3)] assms(4) by (simp add: round_double_def)

lemma round_double_of_int:
  assumes "\<bar>m\<bar> < 2 ^ 53"
  shows "round_double (of_int m) = Finite (of_int m)"
proof (rule round_double_exact [where m = m and k = 0])
  show "real_of_int m = of_int m * 2 powi 0" by simp
  show "\<bar>m\<bar> < 2 ^ 53" by (rule assms)
  show "- 1074 \<le> (0::int)" by simp
  have "\<bar>real_of_int m\<bar> < 2 ^ 53"
    using assms by (metis of_int_abs of_int_less_iff of_int_numeral of_int_power)
  also have "(2::real) ^ 53 < 2 ^ 1024" by simp
  finally show "\<bar>real_of_int m\<bar> < 2 ^ 1024" .
qed

text \<open>Rounding a value that is not a tie, with the exponent and the significand given.\<close>

lemma round_double_eqI:
  assumes "2 powi e \<le> \<bar>x\<bar>" and "\<bar>x\<bar> < 2 powi (e + 1)" and "- 1022 \<le> e"
    and "(of_int n - 1 / 2) * 2 powi (e - 52) < x"
    and "x < (of_int n + 1 / 2) * 2 powi (e - 52)"
    and "\<bar>of_int n * 2 powi (e - 52)\<bar> < (2::real) ^ 1024"
  shows "round_double x = Finite (of_int n * 2 powi (e - 52))"
proof -
  have e: "exponent x = e" using assms(1-3) by (rule exponent_eqI)
  have u: "ulp x = 2 powi (e - 52)" by (simp add: ulp_def e)
  have "of_int n - 1 / 2 < x / ulp x" "x / ulp x < of_int n + 1 / 2"
    using assms(4,5) by (simp_all add: u pos_less_divide_eq pos_divide_less_eq)
  then have "round_half_even (x / ulp x) = n" by (rule round_half_even_eqI)
  then have "round_real x = of_int n * 2 powi (e - 52)"
    by (simp add: round_real_def u)
  with assms(6) show ?thesis by (simp add: round_double_def)
qed

lemma round_double_sqrt_eqI:
  assumes "(2 powi e)\<^sup>2 \<le> q" and "q < (2 powi (e + 1))\<^sup>2" and "- 1022 \<le> e"
    and "1 \<le> n"
    and "((of_int n - 1 / 2) * 2 powi (e - 52))\<^sup>2 < q"
    and "q < ((of_int n + 1 / 2) * 2 powi (e - 52))\<^sup>2"
    and "\<bar>of_int n * 2 powi (e - 52)\<bar> < (2::real) ^ 1024"
  shows "round_double (sqrt q) = Finite (of_int n * 2 powi (e - 52))"
proof (rule round_double_eqI)
  have q: "0 \<le> q" using assms(1) by (smt (verit) zero_le_power2)
  have n: "0 \<le> (real_of_int n - 1 / 2) * 2 powi (e - 52)" using assms(4) by simp
  show "2 powi e \<le> \<bar>sqrt q\<bar>"
    using assms(1) q by (simp add: real_le_rsqrt)
  show "\<bar>sqrt q\<bar> < 2 powi (e + 1)"
    using assms(2) q by (simp add: real_less_lsqrt)
  show "- 1022 \<le> e" by (rule assms)
  show "(of_int n - 1 / 2) * 2 powi (e - 52) < sqrt q"
    using assms(5) by (rule real_less_rsqrt)
  show "sqrt q < (of_int n + 1 / 2) * 2 powi (e - 52)"
    using assms(4,6) by (intro real_less_lsqrt) simp_all
  show "\<bar>of_int n * 2 powi (e - 52)\<bar> < (2::real) ^ 1024" by (rule assms)
qed


lemma round_half_even_tie: "round_half_even (of_int n + 1 / 2) = (if even n then n else n + 1)"
proof -
  have "\<lfloor>real_of_int n + 1 / 2\<rfloor> = n" by (intro floor_unique) auto
  then show ?thesis by (simp add: round_half_even_def Let_def)
qed

lemma round_double_tieI:
  assumes "2 powi e \<le> \<bar>x\<bar>" and "\<bar>x\<bar> < 2 powi (e + 1)" and "- 1022 \<le> e"
    and "x = (of_int n + 1 / 2) * 2 powi (e - 52)"
    and "\<bar>of_int (if even n then n else n + 1) * 2 powi (e - 52)\<bar> < (2::real) ^ 1024"
  shows "round_double x = Finite (of_int (if even n then n else n + 1) * 2 powi (e - 52))"
proof -
  have e: "exponent x = e" using assms(1-3) by (rule exponent_eqI)
  have u: "ulp x = 2 powi (e - 52)" by (simp add: ulp_def e)
  have "x / ulp x = of_int n + 1 / 2"
    unfolding u by (subst assms(4)) simp
  then have "round_half_even (x / ulp x) = (if even n then n else n + 1)"
    by (simp only: round_half_even_tie)
  then have "round_real x = of_int (if even n then n else n + 1) * 2 powi (e - 52)"
    by (simp only: round_real_def u)
  with assms(5) show ?thesis by (simp add: round_double_def)
qed


text \<open>Zero, the small integers and their halves are doubles.\<close>

lemma round_double_0 [simp]: "round_double 0 = Finite 0"
  by (simp add: round_double_def)

lemma round_double_1 [simp]: "round_double 1 = Finite 1"
  using round_double_of_int [of 1] by simp

lemma round_double_numeral [simp]:
  assumes "(numeral k :: int) < 2 ^ 53"
  shows "round_double (numeral k) = Finite (numeral k)"
proof -
  have "\<bar>numeral k :: int\<bar> < 2 ^ 53" using assms by (simp only: abs_numeral)
  from round_double_of_int [OF this] show ?thesis by (simp only: of_int_numeral)
qed

lemma round_double_neg_numeral [simp]:
  assumes "(numeral k :: int) < 2 ^ 53"
  shows "round_double (- numeral k) = Finite (- numeral k)"
proof -
  have "\<bar>- numeral k :: int\<bar> < 2 ^ 53" using assms by (simp only: abs_minus_cancel abs_numeral)
  from round_double_of_int [OF this] show ?thesis by (simp only: of_int_numeral of_int_minus)
qed

lemma round_double_half [simp]:
  assumes "(numeral k :: int) < 2 ^ 53"
  shows "round_double (numeral k / 2) = Finite (numeral k / 2)"
proof (rule round_double_exact [where m = "numeral k" and k = "- 1"])
  show "numeral k / 2 = real_of_int (numeral k) * 2 powi (- 1)" by simp
  show "\<bar>numeral k :: int\<bar> < 2 ^ 53" using assms by (simp only: abs_numeral)
  show "- 1074 \<le> (- 1 :: int)" by simp
  have "real_of_int (numeral k) < 2 ^ 53"
    using assms by (metis of_int_less_iff of_int_numeral of_int_power)
  then have "(numeral k :: real) < 2 ^ 53" by (simp only: of_int_numeral)
  also have "(2::real) ^ 53 < 2 ^ 1024" by simp
  finally have less: "(numeral k :: real) < 2 ^ 1024" .
  have half: "x / 2 \<le> x" if "0 \<le> x" for x :: real using that by simp
  have "numeral k / 2 \<le> (numeral k :: real)" by (rule half) (rule zero_le_numeral)
  then have "numeral k / 2 < (2::real) ^ 1024" using less by (rule le_less_trans)
  then show "\<bar>numeral k / 2 :: real\<bar> < 2 ^ 1024" by (simp only: abs_divide abs_numeral)
qed

lemma round_double_minus_1 [simp]: "round_double (- 1) = Finite (- 1)"
  using round_double_of_int [of "- 1"] by simp

lemma round_double_one_half [simp]: "round_double (1 / 2) = Finite (1 / 2)"
  using round_double_exact [of "1 / 2" 1 "- 1"] by simp

text \<open>The means the imputer takes on the example frames.\<close>

lemma round_double_112_13:
  "round_double (112 / 13) = Finite (4850030367937457 / 562949953421312)"
  using round_double_eqI
    [of "3"
        "112 / 13"
        "4850030367937457"]
  by simp

lemma round_double_1_13:
  "round_double (1 / 13) = Finite (1385722962267845 / 18014398509481984)"
  using round_double_eqI
    [of "- 4"
        "1 / 13"
        "5542891849071380"]
  by simp

lemma round_double_16_3:
  "round_double (16 / 3) = Finite (6004799503160661 / 1125899906842624)"
  using round_double_eqI
    [of "2"
        "16 / 3"
        "6004799503160661"]
  by simp

lemma round_double_22_3:
  "round_double (22 / 3) = Finite (8256599316845909 / 1125899906842624)"
  using round_double_eqI
    [of "2"
        "22 / 3"
        "8256599316845909"]
  by simp

lemma round_double_8_3:
  "round_double (8 / 3) = Finite (6004799503160661 / 2251799813685248)"
  using round_double_eqI
    [of "1"
        "8 / 3"
        "6004799503160661"]
  by simp

lemma round_double_13_3:
  "round_double (13 / 3) = Finite (4878899596318037 / 1125899906842624)"
  using round_double_eqI
    [of "2"
        "13 / 3"
        "4878899596318037"]
  by simp

lemma round_double_2_3:
  "round_double (2 / 3) = Finite (6004799503160661 / 9007199254740992)"
  using round_double_eqI
    [of "- 1"
        "2 / 3"
        "6004799503160661"]
  by simp

lemmas imputer_means =
  round_double_112_13 round_double_1_13 round_double_16_3 round_double_22_3 round_double_8_3
  round_double_13_3 round_double_2_3


text \<open>A sum of zeros is zero, in whatever order it is taken.\<close>

lemma foldl_fadd_zeros:
  "set a \<subseteq> {Finite 0} \<Longrightarrow> foldl fadd (Finite 0) a = Finite 0"
  by (induction a) auto

lemma fadd_zeros:
  assumes "set r \<subseteq> {Finite 0}" and "set a \<subseteq> {Finite 0}"
  shows "set (map2 fadd r a) \<subseteq> {Finite 0}"
proof
  fix z assume "z \<in> set (map2 fadd r a)"
  then obtain x y where xy: "(x, y) \<in> set (zip r a)" and z: "z = fadd x y" by auto
  have "x = Finite 0" using xy assms(1) by (auto dest: set_zip_leftD)
  moreover have "y = Finite 0" using xy assms(2) by (auto dest: set_zip_rightD)
  ultimately show "z \<in> {Finite 0}" using z by simp
qed

lemma add_blocks_zeros:
  assumes "set r \<subseteq> {Finite 0}" and "set a \<subseteq> {Finite 0}"
  shows "set (add_blocks r a) \<subseteq> {Finite 0}"
  using assms
proof (induction r a rule: add_blocks.induct)
  case (1 r a)
  show ?case
  proof (cases "length a < 8")
    case True
    with 1 show ?thesis by (simp add: add_blocks.simps [of r a])
  next
    case False
    have "set (take 8 a) \<subseteq> {Finite 0}"
      using "1.prems"(2) by (auto dest: in_set_takeD)
    with "1.prems"(1) have "set (map2 fadd r (take 8 a)) \<subseteq> {Finite 0}"
      by (rule fadd_zeros)
    moreover have "set (drop 8 a) \<subseteq> {Finite 0}"
      using "1.prems"(2) by (auto dest: in_set_dropD)
    ultimately have "set (add_blocks (map2 fadd r (take 8 a)) (drop 8 a)) \<subseteq> {Finite 0}"
      using False by (intro "1.IH") auto
    with False show ?thesis by (simp add: add_blocks.simps [of r a])
  qed
qed

lemma length_add_blocks: "length r = 8 \<Longrightarrow> length (add_blocks r a) = 8"
proof (induction r a rule: add_blocks.induct)
  case (1 r a)
  show ?case
  proof (cases "length a < 8")
    case True
    with 1 show ?thesis by (simp add: add_blocks.simps [of r a])
  next
    case False
    then have "length (map2 fadd r (take 8 a)) = 8" using "1.prems" by simp
    with False "1.IH" show ?thesis by (simp add: add_blocks.simps [of r a])
  qed
qed

lemma pairwise_sum_zeros:
  "set a \<subseteq> {Finite 0} \<Longrightarrow> pairwise_sum a = Finite 0"
proof (induction a rule: pairwise_sum.induct)
  case (1 a)
  show ?case
  proof (cases "length a < 8")
    case True
    with "1.prems" show ?thesis by (simp add: pairwise_sum.simps [of a] foldl_fadd_zeros)
  next
    case False
    show ?thesis
    proof (cases "length a \<le> 128")
      case True
      define r where "r = add_blocks (take 8 a) (take (length a - length a mod 8 - 8) (drop 8 a))"
      have "set r \<subseteq> {Finite 0}"
        unfolding r_def using "1.prems"
        by (intro add_blocks_zeros) (auto dest: in_set_takeD in_set_dropD)
      moreover have "length r = 8"
        unfolding r_def using False by (intro length_add_blocks) simp
      ultimately have r: "r ! i = Finite 0" if "i < 8" for i
        using that by (metis nth_mem singletonD subsetD)
      have rest: "foldl fadd (Finite 0) (drop (length a - length a mod 8) a) = Finite 0"
        using "1.prems" by (intro foldl_fadd_zeros) (auto dest: in_set_dropD)
      have "pairwise_sum a =
          foldl fadd (fadd (fadd (fadd (r ! 0) (r ! 1)) (fadd (r ! 2) (r ! 3)))
                           (fadd (fadd (r ! 4) (r ! 5)) (fadd (r ! 6) (r ! 7))))
            (drop (length a - length a mod 8) a)"
        using False True by (subst pairwise_sum.simps) (simp only: r_def Let_def if_False if_True)
      also have "\<dots> = foldl fadd (Finite 0) (drop (length a - length a mod 8) a)"
        by (simp add: r)
      finally show ?thesis using rest by simp
    next
      case large: False
      let ?n2 = "length a div 2 - length a div 2 mod 8"
      have "pairwise_sum (take ?n2 a) = Finite 0"
        using False large "1.prems" by (intro "1.IH"(1)) (auto dest: in_set_takeD)
      moreover have "pairwise_sum (drop ?n2 a) = Finite 0"
        using False large "1.prems" by (intro "1.IH"(2)) (auto dest: in_set_dropD)
      ultimately show ?thesis
        using False large by (subst pairwise_sum.simps) (simp add: Let_def)
    qed
  qed
qed

subsection \<open>Outlier detection by the mean\<close>

text \<open>
  The standard deviation is not negative, and rounding keeps the order of two numbers:
  no double is below the lower limit and above the upper limit.
\<close>

lemma round_double_nonneg:
  assumes "0 \<le> x"
  shows "round_double x = Infinite True \<or> (\<exists>r. round_double x = Finite r \<and> 0 \<le> r)"
  using round_real_nonneg [OF assms] by (auto simp: round_double_def Let_def)

lemma fsqrt_range:
  "fsqrt d = NotANumber \<or> fsqrt d = Infinite True \<or> (\<exists>r. fsqrt d = Finite r \<and> 0 \<le> r)"
proof (cases d)
  case (Finite x)
  then show ?thesis
    using round_double_nonneg [of "sqrt x"] by (cases "x < 0") auto
qed auto

lemma fmul_3_range:
  assumes "d = NotANumber \<or> d = Infinite True \<or> (\<exists>r. d = Finite r \<and> 0 \<le> r)"
  shows "fmul (Finite 3) d = NotANumber \<or> fmul (Finite 3) d = Infinite True
         \<or> (\<exists>r. fmul (Finite 3) d = Finite r \<and> 0 \<le> r)"
  using assms
proof (elim disjE exE conjE)
  fix r assume "d = Finite r" and "0 \<le> r"
  then show ?thesis using round_double_nonneg [of "3 * r"] by auto
qed auto

lemma round_double_mono_less:
  assumes "x \<le> y"
  shows "\<not> (dless v (round_double x) \<and> dless (round_double y) v)"
proof -
  have le: "round_real x \<le> round_real y" using assms by (rule round_real_mono)
  show ?thesis
    using le by (cases v) (auto simp: round_double_def Let_def)
qed

lemma limits_ordered:
  assumes "t = NotANumber \<or> t = Infinite True \<or> (\<exists>r. t = Finite r \<and> 0 \<le> r)"
  shows "\<not> (dless v (fsub mean t) \<and> dless (fadd mean t) v)"
  using assms
proof (elim disjE exE conjE)
  assume "t = NotANumber"
  then show ?thesis by (cases mean) (auto simp: fsub_def)
next
  assume "t = Infinite True"
  then show ?thesis by (cases mean; cases v) (auto simp: fsub_def)
next
  fix r assume t: "t = Finite r" and r: "0 \<le> r"
  show ?thesis
  proof (cases mean)
    case (Finite m)
    have "m - r \<le> m + r" using r by simp
    then show ?thesis
      using round_double_mono_less [of "m - r" "m + r" v] by (simp add: Finite t fsub_def)
  next
    case (Infinite s)
    then show ?thesis using t by (cases v) (auto simp: fsub_def)
  next
    case NotANumber
    then show ?thesis by (simp add: fsub_def)
  qed
qed

text \<open>
  The operations of \<open>mean_detection\<close> on nine zeros and a seven, one by one: the sum,
  the mean, the deviations, their squares, the sum and the mean of the squares, the
  square root, and the limits.
\<close>

lemma boundary_step_1: "fadd (Finite 0) (Finite 0) = Finite 0"
  by (simp add: round_double_0)

lemma boundary_step_2:
  "fadd (Finite 0) (Finite 7) = Finite 7"
  using round_double_eqI
    [of "2"
        "0 + 7"
        "7881299347898368"]
  by simp

lemma boundary_step_3:
  "fdiv (Finite 7) (Finite 10) = Finite (3152519739159347 / 4503599627370496)"
  using round_double_eqI
    [of "- 1"
        "7 / 10"
        "6305039478318694"]
  by simp

lemma boundary_step_4:
  "fadd (Finite 0)
        (Finite (- (3152519739159347 / 4503599627370496)))
     = Finite (- (3152519739159347 / 4503599627370496))"
  using round_double_eqI
    [of "- 1"
        "0 + (- (3152519739159347 / 4503599627370496))"
        "- 6305039478318694"]
  by simp

lemma boundary_step_5:
  "fadd (Finite 7)
        (Finite (- (3152519739159347 / 4503599627370496)))
     = Finite (7093169413108531 / 1125899906842624)"
  using round_double_eqI
    [of "2"
        "7 + (- (3152519739159347 / 4503599627370496))"
        "7093169413108531"]
  by simp

lemma boundary_step_6:
  "fmul (Finite (- (3152519739159347 / 4503599627370496)))
        (Finite (- (3152519739159347 / 4503599627370496)))
     = Finite (8827055269646171 / 18014398509481984)"
  using round_double_eqI
    [of "- 2"
        "(- (3152519739159347 / 4503599627370496)) * (- (3152519739159347 / 4503599627370496))"
        "8827055269646171"]
  by simp

lemma boundary_step_7:
  "fmul (Finite (7093169413108531 / 1125899906842624))
        (Finite (7093169413108531 / 1125899906842624))
     = Finite (698233864102871 / 17592186044416)"
  using round_double_eqI
    [of "5"
        "(7093169413108531 / 1125899906842624) * (7093169413108531 / 1125899906842624)"
        "5585870912822968"]
  by simp

lemma boundary_step_8:
  "fadd (Finite (8827055269646171 / 18014398509481984))
        (Finite (8827055269646171 / 18014398509481984))
     = Finite (8827055269646171 / 9007199254740992)"
  using round_double_eqI
    [of "- 1"
        "(8827055269646171 / 18014398509481984) + (8827055269646171 / 18014398509481984)"
        "8827055269646171"]
  by simp

lemma boundary_step_9:
  "fadd (Finite (8827055269646171 / 9007199254740992))
        (Finite (8827055269646171 / 9007199254740992))
     = Finite (8827055269646171 / 4503599627370496)"
  using round_double_eqI
    [of "0"
        "(8827055269646171 / 9007199254740992) + (8827055269646171 / 9007199254740992)"
        "8827055269646171"]
  by simp

lemma boundary_step_10:
  "fadd (Finite (8827055269646171 / 4503599627370496))
        (Finite (8827055269646171 / 4503599627370496))
     = Finite (8827055269646171 / 2251799813685248)"
  using round_double_eqI
    [of "1"
        "(8827055269646171 / 4503599627370496) + (8827055269646171 / 4503599627370496)"
        "8827055269646171"]
  by simp

lemma boundary_step_11:
  "fadd (Finite (8827055269646171 / 2251799813685248))
        (Finite (8827055269646171 / 18014398509481984))
     = Finite (4965218589175971 / 1125899906842624)"
  using round_double_eqI
    [of "2"
        "(8827055269646171 / 2251799813685248) + (8827055269646171 / 18014398509481984)"
        "4965218589175971"]
  by simp

lemma boundary_step_12:
  "fadd (Finite (4965218589175971 / 1125899906842624))
        (Finite (698233864102871 / 17592186044416))
     = Finite (1551630809117491 / 35184372088832)"
  using round_double_eqI
    [of "5"
        "(4965218589175971 / 1125899906842624) + (698233864102871 / 17592186044416)"
        "6206523236469964"]
  by simp

lemma boundary_step_13:
  "fdiv (Finite (1551630809117491 / 35184372088832))
        (Finite 10)
     = Finite (4965218589175971 / 1125899906842624)"
  using round_double_eqI
    [of "2"
        "(1551630809117491 / 35184372088832) / 10"
        "4965218589175971"]
  by simp

lemma boundary_step_14:
  "fsqrt (Finite (4965218589175971 / 1125899906842624))
     = Finite (1182194902184755 / 562949953421312)"
  using round_double_sqrt_eqI
    [of "1"
        "4965218589175971 / 1125899906842624"
        "4728779608739020"]
  by (simp add: power2_eq_square)

lemma boundary_step_15:
  "fmul (Finite 3)
        (Finite (1182194902184755 / 562949953421312))
     = Finite (3546584706554265 / 562949953421312)"
  using round_double_eqI
    [of "2"
        "3 * (1182194902184755 / 562949953421312)"
        "7093169413108530"]
  by simp

lemma boundary_step_16:
  "fadd (Finite (3152519739159347 / 4503599627370496))
        (Finite (- (3546584706554265 / 562949953421312)))
     = Finite (- (6305039478318693 / 1125899906842624))"
  using round_double_eqI
    [of "2"
        "(3152519739159347 / 4503599627370496) + (- (3546584706554265 / 562949953421312))"
        "- 6305039478318693"]
  by simp

lemma boundary_step_17:
  "fadd (Finite (3152519739159347 / 4503599627370496))
        (Finite (3546584706554265 / 562949953421312))
     = Finite (7881299347898367 / 1125899906842624)"
  using round_double_eqI
    [of "2"
        "(3152519739159347 / 4503599627370496) + (3546584706554265 / 562949953421312)"
        "7881299347898367"]
  by simp

lemmas boundary_steps =
  boundary_step_1 boundary_step_2 boundary_step_3 boundary_step_4 boundary_step_5
  boundary_step_6 boundary_step_7 boundary_step_8 boundary_step_9 boundary_step_10
  boundary_step_11 boundary_step_12 boundary_step_13 boundary_step_14 boundary_step_15
  boundary_step_16 boundary_step_17

lemma upt_10: "[0..<10] = [0, 1, 2, 3, 4, 5, 6, 7, 8, 9]"
  by (simp add: upt_rec)

lemma upt_13: "[0..<13] = [0, 1, 2, 3, 4, 5, 6, 7, 8, 9, 10, 11, 12]"
  by (simp add: upt_rec)

lemma mean_detection_boundary: "mean_detection (map Finite boundary_values) = [9]"
  by (simp add: mean_detection_def np_mean_def np_std_def Let_def boundary_values_def
      pairwise_sum.simps add_blocks.simps fsub_def boundary_steps upt_10
      del: fadd.simps fmul.simps fdiv.simps fsqrt.simps)

lemma boundary_mean:
  "np_mean (map Finite boundary_values) = Finite (3152519739159347 / 4503599627370496)"
  by (simp add: np_mean_def boundary_values_def pairwise_sum.simps add_blocks.simps boundary_steps
      del: fadd.simps fmul.simps fdiv.simps fsqrt.simps)

lemma boundary_std:
  "np_std (map Finite boundary_values) = Finite (1182194902184755 / 562949953421312)"
  by (simp add: np_std_def Let_def boundary_values_def pairwise_sum.simps add_blocks.simps
      fsub_def boundary_steps del: fadd.simps fmul.simps fdiv.simps fsqrt.simps)

lemma boundary_exact:
  "exact_mean boundary_values = 7 / 10" "exact_stddev boundary_values = 21 / 10"
proof -
  show mean: "exact_mean boundary_values = 7 / 10"
    by (simp add: exact_mean_def boundary_values_def)
  have "sqrt (441 / 100) = 21 / 10"
    by (rule real_sqrt_unique) (simp_all add: power2_eq_square)
  moreover have "sum_list (map (\<lambda>x. (x - 7 / 10)\<^sup>2) boundary_values) / real (length boundary_values)
      = 441 / 100"
    by (simp add: boundary_values_def power2_eq_square)
  ultimately show "exact_stddev boundary_values = 21 / 10"
    by (simp only: exact_stddev_def mean)
qed

text \<open>
  C7. The claim: \<open>mean_detection\<close> returns exactly the positions of the entries
  strictly outside the interval from mean - 3 std to mean + 3 std. Of nine zeros and a
  seven the mean is 0.7 and the standard deviation 2.1, so the seven is the upper end
  of the interval, 0.7 + 3 * 2.1, and not outside it. In doubles the standard deviation
  comes out as 2.0999999999999996 and the upper limit as 6.999999999999999, below 7:
  position 9 is returned.
\<close>

theorem mean_detection_boundary_counterexample:
  "boundary_values ! 9 = 7
   \<and> exact_mean boundary_values - 3 * exact_stddev boundary_values \<le> boundary_values ! 9
   \<and> boundary_values ! 9 \<le> exact_mean boundary_values + 3 * exact_stddev boundary_values
   \<and> np_mean (map Finite boundary_values) = Finite (3152519739159347 / 4503599627370496)
   \<and> np_std (map Finite boundary_values) = Finite (1182194902184755 / 562949953421312)
   \<and> fadd (np_mean (map Finite boundary_values))
        (fmul (Finite 3) (np_std (map Finite boundary_values)))
       = Finite (7881299347898367 / 1125899906842624)
   \<and> (7881299347898367 / 1125899906842624 :: real) < 7
   \<and> mean_detection (map Finite boundary_values) = [9]"
proof -
  have last: "boundary_values ! 9 = 7" by (simp add: boundary_values_def)
  have inside: "exact_mean boundary_values - 3 * exact_stddev boundary_values \<le> boundary_values ! 9"
    "boundary_values ! 9 \<le> exact_mean boundary_values + 3 * exact_stddev boundary_values"
    by (simp_all add: boundary_exact last)
  have upper: "fadd (np_mean (map Finite boundary_values))
        (fmul (Finite 3) (np_std (map Finite boundary_values)))
       = Finite (7881299347898367 / 1125899906842624)"
    by (simp only: boundary_mean boundary_std boundary_steps)
  have below: "(7881299347898367 / 1125899906842624 :: real) < 7" by simp
  from last inside boundary_mean boundary_std upper below mean_detection_boundary
  show ?thesis by simp
qed

text \<open>
  C7, amended. \<open>mean_detection\<close> returns exactly the positions of the entries that
  are strictly below the lower limit or strictly above the upper limit as they come
  out in double precision: the mean and the standard deviation as NumPy rounds them,
  three times the standard deviation rounded, and its difference from and sum with the
  mean rounded once more. Every such position occurs in the result, once, and no other
  position does. (A NaN entry is never such a position, and there is none when a limit
  is NaN.)
\<close>

theorem mean_detection_double_limits:
  "set (mean_detection values) =
     {num. num < length values \<and>
        (dless (values ! num) (fsub (np_mean values) (fmul (Finite 3) (np_std values)))
         \<or> dless (fadd (np_mean values) (fmul (Finite 3) (np_std values))) (values ! num))}
   \<and> distinct (mean_detection values)"
proof -
  have range: "fmul (Finite 3) (np_std values) = NotANumber
      \<or> fmul (Finite 3) (np_std values) = Infinite True
      \<or> (\<exists>r. fmul (Finite 3) (np_std values) = Finite r \<and> 0 \<le> r)"
    unfolding np_std_def Let_def by (intro fmul_3_range fsqrt_range)
  have s: "set (mean_detection values) =
     {num. num < length values \<and>
        (dless (values ! num) (fsub (np_mean values) (fmul (Finite 3) (np_std values)))
         \<or> dless (fadd (np_mean values) (fmul (Finite 3) (np_std values))) (values ! num))}"
    by (auto simp: mean_detection_def Let_def)
  have d: "distinct (mean_detection values)"
    using limits_ordered [OF range] by (auto simp: mean_detection_def Let_def)
  from s d show ?thesis by simp
qed

text \<open>
  The detection on the scores of the example frames: twelve zeros and one score of -13,
  the -13 last or first, and zeros only.
\<close>

lemma sqrt_12_double:
  "fsqrt (Finite 12) = Finite (3900231685776981 / 1125899906842624)"
  using round_double_sqrt_eqI
    [of "1"
        "12"
        "7800463371553962"]
  by (simp add: power2_eq_square)

lemma three_sqrt_12_double:
  "fmul (Finite 3)
        (Finite (3900231685776981 / 1125899906842624))
     = Finite (45705840067699 / 4398046511104)"
  using round_double_tieI
    [of "3"
        "3 * (3900231685776981 / 1125899906842624)"
        "5850347528665471"]
  by simp

lemma spike_lower_limit:
  "fadd (Finite (- 1))
        (Finite (- (45705840067699 / 4398046511104)))
     = Finite (- (50103886578803 / 4398046511104))"
  using round_double_eqI
    [of "3"
        "(- 1) + (- (45705840067699 / 4398046511104))"
        "- 6413297482086784"]
  by simp

lemma spike_upper_limit:
  "fadd (Finite (- 1))
        (Finite (45705840067699 / 4398046511104))
     = Finite (41307793556595 / 4398046511104)"
  using round_double_eqI
    [of "3"
        "(- 1) + (45705840067699 / 4398046511104)"
        "5287397575244160"]
  by simp

lemma spike_mean: "np_mean (map Finite spike_scores) = Finite (- 1)"
  by (simp add: np_mean_def spike_scores_def pairwise_sum.simps add_blocks.simps)

lemma spike_variance:
  "fdiv (pairwise_sum (map (\<lambda>v. fmul v v)
           (map (\<lambda>v. fsub v (Finite (- 1))) (map Finite spike_scores)))) (Finite 13) = Finite 12"
  by (simp add: spike_scores_def pairwise_sum.simps add_blocks.simps fsub_def)

lemma spike_std:
  "np_std (map Finite spike_scores) = Finite (3900231685776981 / 1125899906842624)"
proof -
  have len: "real (length (map Finite spike_scores)) = 13" by (simp add: spike_scores_def)
  show ?thesis
    unfolding np_std_def Let_def len spike_mean [unfolded np_mean_def len] spike_variance
    by (rule sqrt_12_double)
qed

lemma mean_detection_spike: "mean_detection (map Finite spike_scores) = [12]"
  unfolding mean_detection_def Let_def spike_mean spike_std three_sqrt_12_double
    fsub_def fneg.simps spike_lower_limit spike_upper_limit
  by (simp add: spike_scores_def upt_13)

lemma first_mean: "np_mean (map Finite first_scores) = Finite (- 1)"
  by (simp add: np_mean_def first_scores_def pairwise_sum.simps add_blocks.simps)

lemma first_variance:
  "fdiv (pairwise_sum (map (\<lambda>v. fmul v v)
           (map (\<lambda>v. fsub v (Finite (- 1))) (map Finite first_scores)))) (Finite 13) = Finite 12"
  by (simp add: first_scores_def pairwise_sum.simps add_blocks.simps fsub_def)

lemma first_std:
  "np_std (map Finite first_scores) = Finite (3900231685776981 / 1125899906842624)"
proof -
  have len: "real (length (map Finite first_scores)) = 13" by (simp add: first_scores_def)
  show ?thesis
    unfolding np_std_def Let_def len first_mean [unfolded np_mean_def len] first_variance
    by (rule sqrt_12_double)
qed

lemma mean_detection_first: "mean_detection (map Finite first_scores) = [0]"
  unfolding mean_detection_def Let_def first_mean first_std three_sqrt_12_double
    fsub_def fneg.simps spike_lower_limit spike_upper_limit
  by (simp add: first_scores_def upt_13)

lemma mean_detection_flat: "mean_detection (replicate n (Finite 0)) = []"
proof (cases "n = 0")
  case True
  then show ?thesis by (simp add: mean_detection_def Let_def)
next
  case False
  have sum: "pairwise_sum (replicate n (Finite 0)) = Finite 0"
    by (rule pairwise_sum_zeros) auto
  have mean: "np_mean (replicate n (Finite 0)) = Finite 0"
    using False by (simp add: np_mean_def sum)
  have std: "np_std (replicate n (Finite 0)) = Finite 0"
    using False by (simp add: np_std_def sum fsub_def Let_def)
  show ?thesis
    by (simp add: mean_detection_def Let_def mean std fsub_def filter_empty_conv)
qed

subsection \<open>Sampling\<close>

lemma sample_frac_oversized:
  assumes "rows data \<noteq> []" and "3 / 2 \<le> fraction"
  shows "sample_frac choice data fraction = Inl ValueError"
proof -
  let ?len = "length (rows data)"
  have pos: "1 \<le> real ?len" using assms(1) by (cases "rows data") auto
  have "real ?len + 1 \<le> 3 / 2 * real ?len + 1 / 2" using pos by simp
  also have "\<dots> \<le> fraction * real ?len + 1 / 2"
    using mult_right_mono [OF assms(2), of "real ?len"] by simp
  finally have "real_of_int (int ?len + 1) \<le> fraction * real ?len + 1 / 2" by simp
  then have "int ?len + 1 \<le> \<lfloor>fraction * real ?len + 1 / 2\<rfloor>" by (simp only: le_floor_iff)
  moreover have "0 \<le> fraction * real ?len" using assms(2) by simp
  ultimately show ?thesis by (simp add: sample_frac_def py_round_def Let_def)
qed

text \<open>
  Whenever there is something to shrink, the current ratio at least one and a half times
  the target, \<open>random_sample\<close> asks for more rows than there are and raises.
\<close>

lemma random_sample_raises_when_shrinking:
  assumes "rows data \<noteq> []" and "0 < target_ratio"
    and "3 / 2 * target_ratio \<le> current_ratio"
  shows "random_sample choice data current_ratio target_ratio = Inl ValueError"
proof -
  have "3 / 2 \<le> current_ratio / target_ratio"
    using assms(2,3) by (simp add: pos_le_divide_eq)
  with assms(1) have "sample_frac choice data (current_ratio / target_ratio) = Inl ValueError"
    by (rule sample_frac_oversized)
  with assms(2) show ?thesis by (simp add: random_sample_def)
qed

lemma length_majority_rows: "length (rows majority_rows) = 100"
  by (simp add: majority_rows_def)

text \<open>
  C1. \<open>random_sample\<close> is to keep the fraction \<open>target_ratio / current_ratio\<close> of
  the majority rows: 15 of 100 for the ratios 10 and 1.5. The source passes the inverse,
  \<open>current_ratio / target_ratio\<close>, to \<^verbatim>\<open>sample\<close>: it asks for 667 of the 100 rows, and
  the sampling without replacement raises ValueError, whatever the generator would draw.
\<close>

theorem random_sample_fraction_inverted:
  "py_round (3 / 2 / 10 * real (length (rows majority_rows))) = 15
   \<and> py_round (10 / (3 / 2) * real (length (rows majority_rows))) = 667
   \<and> random_sample choice majority_rows 10 (3 / 2) = Inl ValueError"
proof -
  have "rows majority_rows \<noteq> []"
    using length_majority_rows by auto
  then have "sample_frac choice majority_rows (10 / (3 / 2)) = Inl ValueError"
    by (rule sample_frac_oversized) simp
  then have raised: "random_sample choice majority_rows 10 (3 / 2) = Inl ValueError"
    by (simp add: random_sample_def)
  have asked: "py_round (10 / (3 / 2) * real (length (rows majority_rows))) = 667"
    by (simp add: length_majority_rows py_round_def)
  have wanted: "py_round (3 / 2 / 10 * real (length (rows majority_rows))) = 15"
    by (simp add: length_majority_rows py_round_def)
  from wanted asked raised show ?thesis by simp
qed

text \<open>
  C2. On 100 majority and 10 minority rows \<open>sample_data\<close> with the method
  \<open>both\<close> is to return a frame with the two classes in balance. It finds the labels
  and the ratio 100/10, and then fails in the under-sampling, before SMOTE runs: no
  frame is returned, whatever the generator and SMOTE would do.
\<close>

theorem sample_data_both_raises:
  "map fst (value_counts (column_values imbalanced ''y'')) = [Num 0, Num 1]
   \<and> length (rows (rows_equal imbalanced ''y'' (Num 0))) = 100
   \<and> length (rows (rows_equal imbalanced ''y'' (Num 1))) = 10
   \<and> sample_data choice smoter imbalanced ''y'' [] ''both'' = Inl ValueError"
proof -
  have keys: "map fst (value_counts (column_values imbalanced ''y'')) = [Num 0, Num 1]"
    by code_simp
  have major: "length (rows (rows_equal imbalanced ''y'' (Num 0))) = 100"
    by code_simp
  have minor: "length (rows (rows_equal imbalanced ''y'' (Num 1))) = 10"
    by code_simp
  have raised: "sample_data choice smoter imbalanced ''y'' [] ''both'' = Inl ValueError"
    by code_simp
  from keys major minor raised show ?thesis by simp
qed

subsection \<open>Frames\<close>

lemma index_of_less: "a \<in> set xs \<Longrightarrow> index_of xs a < length xs"
  by (induction xs) auto

lemma nth_index_of: "a \<in> set xs \<Longrightarrow> xs ! index_of xs a = a"
  by (induction xs) auto

lemma index_of_append_new: "a \<notin> set xs \<Longrightarrow> index_of (xs @ [a]) a = length xs"
  by (induction xs) auto

lemma map_of_update_other:
  "c \<noteq> c' \<Longrightarrow> map_of (cols[index_of (map fst cols) c := (c, d)]) c' = map_of cols c'"
proof (induction cols)
  case Nil
  then show ?case by simp
next
  case (Cons p cols)
  then show ?case by (cases p) auto
qed

lemma dtypes_setitem_other:
  "c \<noteq> c' \<Longrightarrow> dtypes (setitem data c d vals) c' = dtypes data c'"
  by (auto simp: dtypes_def setitem_def column_names_def Let_def map_of_update_other map_add_def
      split: option.splits)

lemma column_names_setitem_old:
  assumes "c \<in> set (column_names data)"
  shows "column_names (setitem data c d vals) = column_names data"
proof -
  have "(map fst (columns data))[index_of (map fst (columns data)) c := c] = map fst (columns data)"
    using assms nth_index_of [of c "map fst (columns data)"]
    by (metis column_names_def list_update_id)
  then show ?thesis
    using assms by (simp add: setitem_def column_names_def Let_def map_update)
qed

lemma column_values_setitem_same:
  assumes wf: "wf_table data" and len: "length vals = length (rows data)"
  shows "column_values (setitem data c d vals) c = vals"
proof (cases "c \<in> set (column_names data)")
  case True
  let ?j = "index_of (column_names data) c"
  have j: "?j < length (columns data)"
    using index_of_less [OF True] by (simp add: column_names_def)
  have cells: "\<And>row. row \<in> set (rows data) \<Longrightarrow> ?j < length (snd row)"
    using wf j by (auto simp: wf_table_def list_all_iff)
  have "column_values (setitem data c d vals) c =
        map (\<lambda>row. snd row ! ?j) (rows (setitem data c d vals))"
    using True by (simp add: column_values_def column_names_setitem_old)
  also have "\<dots> = map (\<lambda>(row, v). (snd row)[?j := v] ! ?j) (zip (rows data) vals)"
    using True by (simp add: setitem_def Let_def case_prod_unfold comp_def)
  also have "\<dots> = map (\<lambda>(row, v). v) (zip (rows data) vals)"
    by (rule map_cong) (auto dest!: set_zip_leftD dest: cells)
  also have "\<dots> = vals"
    using len by (simp add: case_prod_unfold flip: map_map) 
  finally show ?thesis .
next
  case False
  have cells: "\<And>row. row \<in> set (rows data) \<Longrightarrow> length (column_names data) = length (snd row)"
    using wf by (auto simp: wf_table_def list_all_iff column_names_def)
  have names: "column_names (setitem data c d vals) = column_names data @ [c]"
    using False by (simp add: setitem_def column_names_def)
  have "column_values (setitem data c d vals) c =
        map (\<lambda>(row, v). (snd row @ [v]) ! length (column_names data)) (zip (rows data) vals)"
    using False 
    by (simp add: column_values_def names index_of_append_new)
       (simp add: setitem_def case_prod_unfold comp_def)
  also have "\<dots> = map (\<lambda>(row, v). v) (zip (rows data) vals)"
    by (rule map_cong) (auto dest!: set_zip_leftD cells)
  also have "\<dots> = vals"
    using len by (simp add: case_prod_unfold flip: map_map)
  finally show ?thesis .
qed


lemma wf_table_setitem:
  assumes "wf_table data"
  shows "wf_table (setitem data c d vals)"
  using assms
  by (auto simp: wf_table_def setitem_def Let_def list_all_iff dest!: set_zip_leftD)

lemma length_rows_setitem:
  "length vals = length (rows data) \<Longrightarrow> length (rows (setitem data c d vals)) = length (rows data)"
  by (simp add: setitem_def Let_def)

lemma length_column_values: "length (column_values data c) = length (rows data)"
  by (simp add: column_values_def)

lemma map_of_update_same:
  "c \<in> fst ` set cols \<Longrightarrow> map_of (cols[index_of (map fst cols) c := (c, d)]) c = Some d"
proof (induction cols)
  case Nil
  then show ?case by simp
next
  case (Cons p cols)
  then show ?case by (cases p) auto
qed

lemma dtypes_setitem_same:
  "dtypes data c = Inr d0 \<Longrightarrow> dtypes (setitem data c d vals) c = Inr d"
proof -
  assume "dtypes data c = Inr d0"
  then have "c \<in> fst ` set (columns data)"
    by (auto simp: dtypes_def split: option.splits dest: map_of_SomeD intro: rev_image_eqI)
  then show ?thesis
    by (simp add: dtypes_def setitem_def column_names_def Let_def map_of_update_same)
qed

lemma index_of_append_old: "a \<in> set xs \<Longrightarrow> index_of (xs @ ys) a = index_of xs a"
  by (induction xs) auto

lemma index_of_inject:
  "a \<in> set xs \<Longrightarrow> b \<in> set xs \<Longrightarrow> index_of xs a = index_of xs b \<Longrightarrow> a = b"
  by (induction xs) (auto split: if_splits)

lemma map_fst_zip_rows: "length vals = length rs \<Longrightarrow> map fst (zip rs vals) = rs"
  by (simp add: map_fst_zip)

lemma column_values_setitem_other:
  assumes wf: "wf_table data" and len: "length vals = length (rows data)"
    and neq: "c \<noteq> c'" and old: "c' \<in> set (column_names data)"
  shows "column_values (setitem data c d vals) c' = column_values data c'"
proof (cases "c \<in> set (column_names data)")
  case True
  let ?j = "index_of (column_names data) c" and ?j' = "index_of (column_names data) c'"
  have diff: "?j \<noteq> ?j'"
    using index_of_inject [OF True old] neq by auto
  have "column_values (setitem data c d vals) c' =
        map (\<lambda>row. snd row ! ?j') (rows (setitem data c d vals))"
    using True by (simp add: column_values_def column_names_setitem_old)
  also have "\<dots> = map (\<lambda>p. (snd (fst p))[?j := snd p] ! ?j') (zip (rows data) vals)"
    using True by (simp add: setitem_def Let_def case_prod_unfold comp_def)
  also have "\<dots> = map (\<lambda>p. snd (fst p) ! ?j') (zip (rows data) vals)"
    using diff by simp
  also have "\<dots> = map (\<lambda>row. snd row ! ?j') (map fst (zip (rows data) vals))"
    by (simp add: comp_def)
  also have "\<dots> = column_values data c'"
    using len by (simp add: column_values_def)
  finally show ?thesis .
next
  case False
  let ?j' = "index_of (column_names data) c'"
  have j': "?j' < length (column_names data)"
    using old by (rule index_of_less)
  have cells: "\<And>row. row \<in> set (rows data) \<Longrightarrow> ?j' < length (snd row)"
    using wf j' by (auto simp: wf_table_def list_all_iff column_names_def)
  have names: "column_names (setitem data c d vals) = column_names data @ [c]"
    using False by (simp add: setitem_def column_names_def)
  have "column_values (setitem data c d vals) c' =
        map (\<lambda>p. (snd (fst p) @ [snd p]) ! ?j') (zip (rows data) vals)"
    using False old
    by (simp add: column_values_def names index_of_append_old)
       (simp add: setitem_def case_prod_unfold comp_def)
  also have "\<dots> = map (\<lambda>p. snd (fst p) ! ?j') (zip (rows data) vals)"
    by (rule map_cong) (auto dest!: set_zip_leftD cells simp: nth_append)
  also have "\<dots> = map (\<lambda>row. snd row ! ?j') (map fst (zip (rows data) vals))"
    by (simp add: comp_def)
  also have "\<dots> = column_values data c'"
    using len by (simp add: column_values_def)
  finally show ?thesis .
qed

lemma index_setitem:
  assumes "length vals = length (rows data)"
  shows "index (setitem data c d vals) = index data"
proof -
  have "map (\<lambda>p. fst (fst p)) (zip (rows data) vals) = map fst (map fst (zip (rows data) vals))"
    by (simp add: comp_def)
  also have "\<dots> = map fst (rows data)"
    using assms by simp
  finally show ?thesis
    by (simp add: index_def setitem_def Let_def case_prod_unfold comp_def)
qed

lemma length_fold_update: "length (fold (\<lambda>p vs. vs[f p := a]) ps zs) = length zs"
  by (induction ps arbitrary: zs) auto

lemma fold_update_nth:
  "i < length zs \<Longrightarrow>
     fold (\<lambda>p vs. vs[f p := a]) ps zs ! i = (if i \<in> f ` set ps then a else zs ! i)"
proof (induction ps arbitrary: zs)
  case Nil
  then show ?case by simp
next
  case (Cons p ps)
  then show ?case by (auto simp: nth_list_update)
qed

lemma index_of_upt: "p < n \<Longrightarrow> index_of (map int [0..<n]) (int p) = p"
proof (induction n)
  case 0
  then show ?case by simp
next
  case (Suc n)
  show ?case
  proof (cases "p < n")
    case True
    then have "int p \<in> set (map int [0..<n])" by auto
    then show ?thesis using Suc.IH [OF True] by (simp add: index_of_append_old)
  next
    case False
    with Suc.prems have "p = n" by simp
    moreover have "int n \<notin> set (map int [0..<n])" by auto
    ultimately show ?thesis by (simp add: index_of_append_new)
  qed
qed

lemma series_setitem_default_index:
  assumes "length vals = n" and "set ps \<subseteq> {..<n}"
  shows "series_setitem (map int [0..<n]) vals (map int ps) a =
           Inr (map (\<lambda>i. if i \<in> set ps then a else vals ! i) [0..<n])"
proof -
  have dist: "distinct (map int [0..<n])"
    by (simp add: distinct_map inj_on_def)
  have sub: "set (map int ps) \<subseteq> set (map int [0..<n])"
    using assms(2) by auto
  let ?r = "fold (\<lambda>label vs. vs[index_of (map int [0..<n]) label := a]) (map int ps) vals"
  have len: "length ?r = n"
    using assms(1) by (simp add: length_fold_update)
  have "?r = map (\<lambda>i. if i \<in> set ps then a else vals ! i) [0..<n]"
  proof (rule nth_equalityI)
    show "length ?r = length (map (\<lambda>i. if i \<in> set ps then a else vals ! i) [0..<n])"
      using len by simp
  next
    fix i assume "i < length ?r"
    then have i: "i < n" using len by simp
    have img: "(i \<in> index_of (map int [0..<n]) ` set (map int ps)) = (i \<in> set ps)"
    proof
      assume "i \<in> index_of (map int [0..<n]) ` set (map int ps)"
      then obtain p where p: "p \<in> set ps" and "i = index_of (map int [0..<n]) (int p)"
        by auto
      moreover have "p < n" using p assms(2) by auto
      ultimately show "i \<in> set ps" by (simp add: index_of_upt)
    next
      assume "i \<in> set ps"
      moreover have "index_of (map int [0..<n]) (int i) = i" using i by (rule index_of_upt)
      ultimately show "i \<in> index_of (map int [0..<n]) ` set (map int ps)"
        by (metis image_eqI image_set)
    qed
    show "?r ! i = map (\<lambda>i. if i \<in> set ps then a else vals ! i) [0..<n] ! i"
      using i assms(1) img by (simp add: fold_update_nth)
  qed
  with dist sub show ?thesis by (simp add: series_setitem_def)
qed

lemma flags_of_positions:
  "map (\<lambda>i. if i \<in> set (np_where (isnull vals)) then Num 1 else np_zeros (length vals) ! i)
       [0..<length vals]
   = map (\<lambda>c. if c = NaN then Num 1 else Num 0) vals"
  by (rule nth_equalityI) (auto simp: np_where_def isnull_def np_zeros_def)


lemma dtypes_Inr_mem: "dtypes data c = Inr d \<Longrightarrow> c \<in> set (column_names data)"
  by (auto simp: dtypes_def column_names_def split: option.splits dest: map_of_SomeD
      intro: rev_image_eqI)

lemma setitem_has_column: "c \<in> set (column_names (setitem data c d vals))"
  by (cases "c \<in> set (column_names data)")
     (simp_all add: column_names_setitem_old, simp add: setitem_def column_names_def)

subsection \<open>Filling missing values\<close>

lemmas frame_defs =
  column_values_def column_names_def index_def dtypes_def setitem_def fillna_def isnull_def
  np_where_def np_zeros_def series_setitem_def series_getitem_bool_def numbers_def
  List.map_filter_def ma_mean_def filled_with_zero_def cell_of_double_def
  imputer_fit_transform_def

text \<open>
  On columns that are not numeric \<open>transform\<close> does what \<open>fit_transform\<close> does: they
  leave the same frame, and the fillers as they were.
\<close>

lemma round_trip_categorical:
  assumes "list_all (\<lambda>c. dtypes data c = Inr Object) column_list"
  shows "\<exists>data'. fit_transform self data column_list = Returned (self, data')
           \<and> transform self' data column_list = Returned (self', data')"
proof -
  have "\<exists>data'. fit_transform_loop (self, data) column_list = Returned (self, data')
           \<and> transform_loop (self', data) column_list = Returned (self', data')"
    using assms
  proof (induction column_list arbitrary: data)
    case Nil
    then show ?case by simp
  next
    case (Cons c column_list)
    let ?data1 = "setitem data c Object (fillna (column_values data c) (Str ''missing''))"
    have c: "dtypes data c = Inr Object"
      using Cons.prems by simp
    have fit: "fit_transform_column (self, data) c = Returned (self, ?data1)"
      using c by (simp add: fit_transform_column_def Let_def)
    have again: "transform_column (self', data) c = Returned (self', ?data1)"
      using c by (simp add: transform_column_def Let_def)
    have rest: "list_all (\<lambda>c'. dtypes ?data1 c' = Inr Object) column_list"
      unfolding list_all_iff
    proof
      fix c' assume "c' \<in> set column_list"
      then have old: "dtypes data c' = Inr Object"
        using Cons.prems by (simp add: list_all_iff)
      show "dtypes ?data1 c' = Inr Object"
      proof (cases "c' = c")
        case True
        with c show ?thesis by (simp add: dtypes_setitem_same)
      next
        case False
        then show ?thesis using old by (simp add: dtypes_setitem_other)
      qed
    qed
    from Cons.IH [OF rest] fit again show ?case by simp
  qed
  then show ?thesis by (simp add: fit_transform_def transform_def)
qed

text \<open>
  C4. Transforming a copy of the frame that was fitted is to give what \<open>fit_transform\<close>
  gave. On the column 1, NaN, 3 \<open>fit_transform\<close> returns the column 1, 2, 3 with the flags
  0, 1, 0 and stores the mean 2. \<open>transform\<close> with that filler on the same frame writes
  the flags 0, 0, 0 and raises KeyError where it indexes the column with \<^verbatim>\<open>False\<close>: it
  returns nothing, and the frame it leaves has the value still missing.
\<close>

theorem transform_after_fit_raises:
  "fit_transform (NaFiller ''mean'') one_gap [''x''] =
     Returned (fitted_mean 2,
       \<lparr>columns = [(''x'', Float64), (''x_flag'', Float64)],
        rows = [(0, [Num 1, Num 0]), (1, [Num 2, Num 1]), (2, [Num 3, Num 0])]\<rparr>)
   \<and> transform (fitted_mean 2) one_gap [''x''] =
     Raised KeyError (fitted_mean 2,
       \<lparr>columns = [(''x'', Float64), (''x_flag'', Float64)],
        rows = [(0, [Num 1, Num 0]), (1, [NaN, Num 0]), (2, [Num 3, Num 0])]\<rparr>)"
proof -
  have fit: "fit_transform (NaFiller ''mean'') one_gap [''x''] =
     Returned (fitted_mean 2,
       \<lparr>columns = [(''x'', Float64), (''x_flag'', Float64)],
        rows = [(0, [Num 1, Num 0]), (1, [Num 2, Num 1]), (2, [Num 3, Num 0])]\<rparr>)"
    by (simp add: fit_transform_def fit_transform_column_def NaFiller_def one_gap_def
        fitted_mean_def frame_defs pairwise_sum.simps Let_def)
  have again: "transform (fitted_mean 2) one_gap [''x''] =
     Raised KeyError (fitted_mean 2,
       \<lparr>columns = [(''x'', Float64), (''x_flag'', Float64)],
        rows = [(0, [Num 1, Num 0]), (1, [NaN, Num 0]), (2, [Num 3, Num 0])]\<rparr>)"
    by (simp add: transform_def transform_column_def one_gap_def fitted_mean_def
        frame_defs Let_def)
  from fit again show ?thesis by simp
qed

text \<open>
  On a frame with the default index, where the label of a row is its position, one
  round of \<open>fit_transform\<close> on a numeric column leaves the flags as they are meant:
  a 1 where the value was missing and a 0 elsewhere, so as many ones as missing values.
\<close>

lemma imputer_fit_transform_length:
  "imputer_fit_transform method vals = Inr (imp, filled) \<Longrightarrow> length filled = length vals"
  by (auto simp: imputer_fit_transform_def fillna_def Let_def split: if_splits)

lemma fit_transform_column_flags:
  assumes wf: "wf_table data"
    and idx: "index data = map int [0..<length (rows data)]"
    and dt: "dtypes data column = Inr d" and num: "d \<in> set [Float64, Int64]"
    and ret: "fit_transform_column (self, data) column = Returned s'"
  shows "column_values (snd s') (column @ ''_flag'') =
           map (\<lambda>c. if c = NaN then Num 1 else Num 0) (column_values data column)"
proof -
  let ?n = "length (rows data)"
  let ?flag = "column @ ''_flag''"
  let ?vals = "column_values data column"
  let ?data1 = "setitem data ?flag Float64 (np_zeros (length ?vals))"
  let ?flags = "map (\<lambda>c. if c = NaN then Num 1 else Num 0) ?vals"
  let ?data2 = "setitem ?data1 ?flag Float64 ?flags"
  have n: "length ?vals = ?n" by (rule length_column_values)
  have zeros: "length (np_zeros (length ?vals)) = ?n" by (simp add: np_zeros_def n)
  have col: "column \<in> set (column_names data)" using dt by (rule dtypes_Inr_mem)
  have neq: "?flag \<noteq> column" by simp
  have wf1: "wf_table ?data1" using wf by (rule wf_table_setitem)
  have rows1: "length (rows ?data1) = ?n" using zeros by (simp add: length_rows_setitem)
  have vals1: "column_values ?data1 column = ?vals"
    using wf zeros neq col by (simp add: column_values_setitem_other)
  have flag1: "column_values ?data1 ?flag = np_zeros (length ?vals)"
    using wf zeros by (simp add: column_values_setitem_same)
  have idx1: "index ?data1 = map int [0..<?n]"
    using zeros idx by (simp add: index_setitem)
  have below: "set (np_where (isnull ?vals)) \<subseteq> {..<?n}"
    using n by (auto simp: np_where_def isnull_def)
  have "series_setitem (map int [0..<?n]) (np_zeros (length ?vals))
          (map int (np_where (isnull ?vals))) (Num 1) =
        Inr (map (\<lambda>i. if i \<in> set (np_where (isnull ?vals)) then Num 1
                         else np_zeros (length ?vals) ! i) [0..<?n])"
    using zeros below by (rule series_setitem_default_index)
  also have "map (\<lambda>i. if i \<in> set (np_where (isnull ?vals)) then Num 1
                         else np_zeros (length ?vals) ! i) [0..<?n] = ?flags"
    using flags_of_positions [of ?vals] n by simp
  finally have set_flags: "series_setitem (index ?data1) (column_values ?data1 ?flag)
      (map int (np_where (isnull (column_values ?data1 column)))) (Num 1) = Inr ?flags"
    by (simp add: idx1 flag1 vals1)
  have wf2: "wf_table ?data2" using wf1 by (rule wf_table_setitem)
  have rows2: "length (rows ?data2) = ?n" using rows1 n by (simp add: length_rows_setitem)
  have flag2: "column_values ?data2 ?flag = ?flags"
    using wf1 rows1 n by (simp add: column_values_setitem_same)
  obtain imp filled where
    fitted: "imputer_fit_transform (numeric_method self) (column_values ?data2 column) =
               Inr (imp, filled)"
    and s': "snd s' = setitem ?data2 column Float64 filled"
    using ret dt num set_flags
    by (auto simp: fit_transform_column_def Let_def split: sum.splits if_splits)
  have len: "length filled = length (rows ?data2)"
    using imputer_fit_transform_length [OF fitted] by (simp add: length_column_values)
  have "column_values (setitem ?data2 column Float64 filled) ?flag = column_values ?data2 ?flag"
    using wf2 len _ setitem_has_column by (rule column_values_setitem_other) simp
  with s' flag2 show ?thesis by simp
qed

lemma count_flags:
  "length (filter (\<lambda>c. c = Num 1) (map (\<lambda>c. if c = NaN then Num 1 else Num 0) vals)) =
     length (filter (\<lambda>c. c = NaN) vals)
   \<and> length (filter (\<lambda>c. c = Num 0) (map (\<lambda>c. if c = NaN then Num 1 else Num 0) vals)) =
     length vals - length (filter (\<lambda>c. c = NaN) vals)"
  by (induction vals) (auto simp: Suc_diff_le)

lemma fit_transform_flags_default_index:
  assumes "wf_table data"
    and "index data = map int [0..<length (rows data)]"
    and "dtypes data column = Inr d" and "d \<in> set [Float64, Int64]"
    and "fit_transform self data [column] = Returned s'"
  shows "column_values (snd s') (column @ ''_flag'') =
           map (\<lambda>c. if c = NaN then Num 1 else Num 0) (column_values data column)"
proof -
  have "fit_transform_column (self, data) column = Returned s'"
    using assms(5) by (simp add: fit_transform_def split: outcome.splits)
  with assms(1-4) show ?thesis by (rule fit_transform_column_flags)
qed

text \<open>
  C6. The flag column is to hold a 1 exactly where the column had a missing value. The
  source takes the positions of the missing values and uses them as index labels of the
  flag column. On a frame whose labels are not its positions (here the labels 0, 2, 3,
  the value at position 2 missing) the 1 goes to the row with the label 2, which is at
  position 1 and was not missing; the row that was missing keeps the flag 0. Such a frame
  is what \<open>wash_data\<close> hands to \<open>isolation_forest\<close>, and so to
  \<open>fit_transform\<close>, once it has dropped a row.
\<close>

theorem fit_transform_flags_by_label:
  "np_where (isnull (column_values after_row_drop ''x'')) = [2]
   \<and> fit_transform (NaFiller ''mean'') after_row_drop [''x''] =
     Returned (fitted_mean (11 / 2),
       \<lparr>columns = [(''x'', Float64), (''x_flag'', Float64)],
        rows = [(0, [Num 5, Num 0]), (2, [Num 6, Num 1]), (3, [Num (11 / 2), Num 0])]\<rparr>)"
proof -
  have missing: "np_where (isnull (column_values after_row_drop ''x'')) = [2]"
    by (simp add: after_row_drop_def frame_defs)
  have fit: "fit_transform (NaFiller ''mean'') after_row_drop [''x''] =
     Returned (fitted_mean (11 / 2),
       \<lparr>columns = [(''x'', Float64), (''x_flag'', Float64)],
        rows = [(0, [Num 5, Num 0]), (2, [Num 6, Num 1]), (3, [Num (11 / 2), Num 0])]\<rparr>)"
    by (simp add: fit_transform_def fit_transform_column_def NaFiller_def after_row_drop_def
        fitted_mean_def frame_defs pairwise_sum.simps Let_def)
  from missing fit show ?thesis by simp
qed

lemma transform_column_numeric:
  assumes "dtypes data column = Inr d" and "d \<in> set [Float64, Int64]"
  shows "\<exists>e. transform_column (self, data) column =
           Raised e (self, setitem data (column @ ''_flag'') Float64 (np_zeros (length (rows data))))"
  using assms
  by (auto simp: transform_column_def Let_def series_getitem_bool_def length_column_values)

lemma transform_column_returned:
  assumes "transform_column (self, data) c = Returned s'"
  shows "fst s' = self \<and> dtypes data c = Inr Object
         \<and> snd s' = setitem data c Object (fillna (column_values data c) (Str ''missing''))"
proof -
  obtain d where d: "dtypes data c = Inr d"
    using assms by (cases "dtypes data c") (auto simp: transform_column_def Let_def)
  have "d = Object"
    using assms d
    by (cases d) (auto simp: transform_column_def Let_def series_getitem_bool_def split: if_splits)
  with assms d show ?thesis
    by (auto simp: transform_column_def Let_def)
qed


lemma transform_loop_numeric_raises:
  assumes "column \<in> set column_list"
    and "dtypes data column = Inr d" and "d \<in> set [Float64, Int64]"
  shows "\<exists>e s. transform_loop (self, data) column_list = Raised e s"
  using assms
proof (induction column_list arbitrary: data)
  case Nil
  then show ?case by simp
next
  case (Cons c column_list)
  show ?case
  proof (cases "transform_column (self, data) c")
    case (Raised e s)
    then show ?thesis by simp
  next
    case (Returned s')
    note ret = transform_column_returned [OF Returned]
    have neq: "c \<noteq> column"
      using ret Cons.prems(2,3) by auto
    then have mem: "column \<in> set column_list"
      using Cons.prems(1) by simp
    have dt: "dtypes (snd s') column = Inr d"
      using ret neq Cons.prems(2) by (simp add: dtypes_setitem_other)
    have "s' = (self, snd s')"
      using ret by (cases s') simp
    with Cons.IH [OF mem dt Cons.prems(3)] Returned show ?thesis
      by simp
  qed
qed

text \<open>
  C5. When a numeric column of the list has no imputer in the dictionary of the filler,
  \<open>transform\<close> does not return: it raises. (It raises at the first numeric column it
  reaches, fitted or not, at the flagging statement, which comes before the lookup in
  the dictionary; the columns before it are not numeric and leave the dtype of the
  column as it is.)
\<close>

theorem transform_unfit_numeric_raises:
  assumes "column \<in> set column_list"
    and "dtypes data column = Inr d" and "d \<in> set [Float64, Int64]"
    and "num_imputer_dic self column = None"
  shows "\<exists>e s. transform self data column_list = Raised e s"
  unfolding transform_def using assms(1-3) by (rule transform_loop_numeric_raises)

theorem transform_unfit_numeric_raises_witness:
  "''b'' \<in> set [''s'', ''b''] \<and> dtypes mixed ''b'' = Inr Float64
   \<and> num_imputer_dic (NaFiller ''mean'') ''b'' = None
   \<and> (\<exists>e s. transform (NaFiller ''mean'') mixed [''s'', ''b''] = Raised e s)"
proof -
  have mem: "''b'' \<in> set [''s'', ''b'']" by simp
  have dt: "dtypes mixed ''b'' = Inr Float64" by (simp add: dtypes_def mixed_def)
  have num: "Float64 \<in> set [Float64, Int64]" by simp
  have unfit: "num_imputer_dic (NaFiller ''mean'') ''b'' = None" by (simp add: NaFiller_def)
  from transform_unfit_numeric_raises [OF mem dt num unfit] mem dt unfit
  show ?thesis by blast
qed

lemma transform_loop_zero_flags:
  assumes "wf_table data"
    and "list_all (\<lambda>c. dtypes data c = Inr Object) pre"
    and "dtypes data column = Inr d" and "d \<in> set [Float64, Int64]"
  shows "\<exists>e data'. transform_loop (self, data) (pre @ column # post) = Raised e (self, data')
           \<and> column_values data' (column @ ''_flag'') = np_zeros (length (rows data))"
  using assms
proof (induction pre arbitrary: data)
  case Nil
  obtain e where "transform_column (self, data) column =
      Raised e (self, setitem data (column @ ''_flag'') Float64 (np_zeros (length (rows data))))"
    using transform_column_numeric [OF Nil.prems(3,4)] by blast
  moreover have "column_values (setitem data (column @ ''_flag'') Float64 (np_zeros (length (rows data))))
        (column @ ''_flag'') = np_zeros (length (rows data))"
    using Nil.prems(1) by (rule column_values_setitem_same) (simp add: np_zeros_def)
  ultimately show ?case by simp
next
  case (Cons c pre)
  let ?data1 = "setitem data c Object (fillna (column_values data c) (Str ''missing''))"
  have c: "dtypes data c = Inr Object"
    using Cons.prems(2) by simp
  then have step: "transform_column (self, data) c = Returned (self, ?data1)"
    by (simp add: transform_column_def Let_def)
  have neq: "c \<noteq> column"
    using c Cons.prems(3,4) by auto
  have wf1: "wf_table ?data1"
    using Cons.prems(1) by (rule wf_table_setitem)
  have len1: "length (rows ?data1) = length (rows data)"
    by (simp add: length_rows_setitem fillna_def length_column_values)
  have pre1: "list_all (\<lambda>c'. dtypes ?data1 c' = Inr Object) pre"
    unfolding list_all_iff
  proof
    fix c' assume "c' \<in> set pre"
    then have old: "dtypes data c' = Inr Object"
      using Cons.prems(2) by (simp add: list_all_iff)
    show "dtypes ?data1 c' = Inr Object"
    proof (cases "c' = c")
      case True
      with c show ?thesis by (simp add: dtypes_setitem_same)
    next
      case False
      then show ?thesis using old by (simp add: dtypes_setitem_other)
    qed
  qed
  have col1: "dtypes ?data1 column = Inr d"
    using neq Cons.prems(3) by (simp add: dtypes_setitem_other)
  from Cons.IH [OF wf1 pre1 col1 Cons.prems(4)] step len1 show ?case
    by simp
qed

text \<open>
  C10. For every numeric column of its list \<open>transform\<close> is to write a flag column,
  all zeros. On the frame \<open>mixed\<close> with the list s, a, b it does not: it fills s,
  writes the zeros of \<open>a_flag\<close>, and raises KeyError at the flagging statement of a,
  where it indexes the column with \<^verbatim>\<open>False\<close>. The numeric column b is never
  reached, the frame it leaves has no column \<open>b_flag\<close>, and no frame is returned.
\<close>

theorem transform_raises_at_first_flag:
  "transform fitted_ab mixed [''s'', ''a'', ''b''] = Raised KeyError (fitted_ab, mixed_left)
   \<and> dtypes mixed ''b'' = Inr Float64
   \<and> getitem mixed_left ''b_flag'' = Inl KeyError"
  by (simp add: transform_def transform_column_def mixed_def mixed_left_def getitem_def
      frame_defs Let_def)

text \<open>
  It is so on every frame: \<open>transform\<close> does not get past the first numeric column of
  its list. When the columns before it are there and not numeric, it writes the zeros
  of the flag column of that column and then raises, with the filler unchanged.
\<close>

lemma transform_zero_flags_then_raises:
  assumes "wf_table data"
    and "list_all (\<lambda>c. dtypes data c = Inr Object) pre"
    and "dtypes data column = Inr d" and "d \<in> set [Float64, Int64]"
  shows "\<exists>e data'. transform self data (pre @ column # post) = Raised e (self, data')
           \<and> column_values data' (column @ ''_flag'') = np_zeros (length (rows data))"
  unfolding transform_def using assms by (rule transform_loop_zero_flags)

subsection \<open>Washing\<close>

text \<open>What the steps of \<open>wash_data\<close> keep.\<close>

lemma keep_first_fresh: "row \<in> set (keep_first seen rs) \<Longrightarrow> snd row \<notin> set seen"
proof (induction rs arbitrary: seen)
  case Nil
  then show ?case by simp
next
  case (Cons r rest)
  show ?case
  proof (cases "snd r \<in> set seen")
    case True
    with Cons show ?thesis by simp
  next
    case False
    with Cons.prems have "row = r \<or> row \<in> set (keep_first (snd r # seen) rest)"
      by simp
    then show ?thesis
    proof
      assume "row = r"
      with False show ?thesis by simp
    next
      assume "row \<in> set (keep_first (snd r # seen) rest)"
      then have "snd row \<notin> set (snd r # seen)" by (rule Cons.IH)
      then show ?thesis by simp
    qed
  qed
qed

lemma distinct_keep_first: "distinct (map snd (keep_first seen rs))"
proof (induction rs arbitrary: seen)
  case Nil
  then show ?case by simp
next
  case (Cons row rest)
  show ?case
  proof (cases "snd row \<in> set seen")
    case True
    then show ?thesis using Cons.IH by simp
  next
    case False
    have "snd row \<notin> snd ` set (keep_first (snd row # seen) rest)"
    proof
      assume "snd row \<in> snd ` set (keep_first (snd row # seen) rest)"
      then obtain r where "r \<in> set (keep_first (snd row # seen) rest)" and "snd r = snd row"
        by auto
      then show False using keep_first_fresh [of r "snd row # seen" rest] by simp
    qed
    with False Cons.IH show ?thesis by simp
  qed
qed

lemma subseq_keep_first: "subseq (keep_first seen rs) rs"
  by (induction rs arbitrary: seen) auto

lemma columns_cleaned [simp]:
  "columns (drop_duplicates data) = columns data"
  "columns (dropna data thresh) = columns data"
  by (simp_all add: drop_duplicates_def dropna_def)

lemma cleaned_rows_update:
  "dropna (drop_duplicates data0) thresh =
     data0\<lparr>rows := filter (\<lambda>row. thresh \<le> int (count_present (snd row)))
                       (keep_first [] (rows data0))\<rparr>"
  by (simp add: drop_duplicates_def dropna_def)

lemma drop_labels_Inr:
  assumes "drop_labels data labels = Inr data'"
  shows "data' = data\<lparr>rows := filter (\<lambda>row. fst row \<notin> set labels) (rows data)\<rparr>"
  using assms by (auto simp: drop_labels_def split: if_splits)

lemma select_columns_Inr:
  assumes "select_columns data names = Inr out"
  shows "column_names out = names"
  using assms by (auto simp: select_columns_def column_names_def comp_def split: if_splits)

lemma select_columns_rows_update:
  "select_columns (data\<lparr>rows := rs\<rparr>) names =
     (if set names \<subseteq> set (column_names data)
      then Inr \<lparr>columns = map (\<lambda>c. (c, the (map_of (columns data) c))) names,
                rows = map (\<lambda>row. (fst row,
                         map (\<lambda>c. snd row ! index_of (column_names data) c) names)) rs\<rparr>
      else Inl KeyError)"
  by (simp add: select_columns_def column_names_def)

lemma wash_data_Inr:
  assumes "wash_data score data0 target_column id_columns outlier = Inr out"
    and "cleaned = dropna (drop_duplicates data0) \<lfloor>real (length (columns data0)) * (6 / 10)\<rfloor>"
  shows "\<exists>outlier_index data3 feature_column.
           isolation_forest score cleaned target_column id_columns = Inr outlier_index
         \<and> (if outlier then drop_labels cleaned (map int outlier_index) = Inr data3
             else data3 = cleaned)
         \<and> remove_each (column_names data3) id_columns = Inr feature_column
         \<and> select_columns data3 feature_column = Inr out"
  using assms
  by (auto simp: wash_data_def Let_def split: sum.splits if_splits)

lemma nths_cong_below:
  assumes "\<And>i. i < length xs \<Longrightarrow> (i \<in> A) = (i \<in> B)"
  shows "nths xs A = nths xs B"
proof -
  have "filter (\<lambda>p. snd p \<in> A) (zip xs [0..<length xs]) =
        filter (\<lambda>p. snd p \<in> B) (zip xs [0..<length xs])"
    by (rule filter_cong) (auto dest!: set_zip_rightD simp: assms)
  then show ?thesis by (simp add: nths_def)
qed

lemma filter_by_label_positions:
  assumes "map fst rs = map int [0..<length rs]"
  shows "filter (\<lambda>row. fst row \<notin> set (map int ps)) rs = nths rs {p. p \<notin> set ps}"
proof -
  have label: "fst (rs ! i) = int i" if "i < length rs" for i
  proof -
    have "map fst rs ! i = map int [0..<length rs] ! i" using assms by simp
    with that show ?thesis by simp
  qed
  have "filter (\<lambda>row. fst row \<notin> set (map int ps)) rs =
        nths rs {i. i < length rs \<and> fst (rs ! i) \<notin> set (map int ps)}"
    by (rule filter_eq_nths)
  also have "\<dots> = nths rs {p. p \<notin> set ps}"
    by (rule nths_cong_below) (auto simp: label)
  finally show ?thesis .
qed

lemma project_all_columns:
  assumes "distinct names" and "length cells = length names"
  shows "map (\<lambda>c. cells ! index_of names c) names = cells"
proof (rule nth_equalityI)
  show "length (map (\<lambda>c. cells ! index_of names c) names) = length cells"
    using assms(2) by simp
next
  fix i assume "i < length (map (\<lambda>c. cells ! index_of names c) names)"
  then have i: "i < length names" by simp
  have "index_of names (names ! i) = i"
    using assms(1) i
  proof (induction names arbitrary: i)
    case Nil
    then show ?case by simp
  next
    case (Cons n names)
    then show ?case by (cases i) auto
  qed
  with i show "map (\<lambda>c. cells ! index_of names c) names ! i = cells ! i" by simp
qed

text \<open>
  The threshold of \<^verbatim>\<open>dropna\<close> for the three, four and five columns of the example
  frames, as the source computes it in doubles: \<^verbatim>\<open>int(ncols * 0.6)\<close> with the double
  next to 0.6.
\<close>

lemma percent_double:
  "round_double (6 / 10) = Finite (5404319552844595 / 9007199254740992)"
  using round_double_eqI
    [of "- 1"
        "6 / 10"
        "5404319552844595"]
  by simp

lemma threshold_3_columns:
  "fmul (Finite 3) (Finite (5404319552844595 / 9007199254740992))
     = Finite (2026619832316723 / 1125899906842624)"
  "\<lfloor>2026619832316723 / 1125899906842624 :: real\<rfloor> = \<lfloor>real 3 * (6 / 10)\<rfloor>"
  using round_double_tieI
    [of "0"
        "3 * (5404319552844595 / 9007199254740992)"
        "8106479329266892"]
  by simp_all

lemma threshold_4_columns:
  "fmul (Finite 4) (Finite (5404319552844595 / 9007199254740992))
     = Finite (5404319552844595 / 2251799813685248)"
  "\<lfloor>5404319552844595 / 2251799813685248 :: real\<rfloor> = \<lfloor>real 4 * (6 / 10)\<rfloor>"
  using round_double_eqI
    [of "1"
        "4 * (5404319552844595 / 9007199254740992)"
        "5404319552844595"]
  by simp_all

lemma threshold_5_columns:
  "fmul (Finite 5) (Finite (5404319552844595 / 9007199254740992))
     = Finite 3"
  "\<lfloor>3 :: real\<rfloor> = \<lfloor>real 5 * (6 / 10)\<rfloor>"
  using round_double_eqI
    [of "1"
        "5 * (5404319552844595 / 9007199254740992)"
        "6755399441055744"]
  by simp_all

text \<open>The example frames, step by step.\<close>

lemma cleaned_with_duplicate:
  "dropna (drop_duplicates with_duplicate) \<lfloor>real (length (columns with_duplicate)) * (6 / 10)\<rfloor>
     = deduplicated"
  by (simp add: drop_duplicates_def dropna_def count_present_def with_duplicate_def deduplicated_def)

lemma forest_deduplicated: "isolation_forest spike_scorer deduplicated ''y'' [''id''] = Inr [12]"
  by (simp add: isolation_forest_def fit_transform_def fit_transform_column_def NaFiller_def
      deduplicated_def frame_defs list_remove_def remove_present_def select_columns_def
      spike_scorer_def Let_def pairwise_sum.simps add_blocks.simps imputer_means
      mean_detection_spike [unfolded spike_scores_def, simplified])

lemma wash_with_duplicate_False:
  "wash_data spike_scorer with_duplicate ''y'' [''id''] False = Inr washed_all"
  unfolding wash_data_def Let_def columns_cleaned cleaned_with_duplicate forest_deduplicated
  by (simp add: deduplicated_def washed_all_def select_columns_def column_names_def list_remove_def)

lemma wash_with_duplicate_True:
  "wash_data spike_scorer with_duplicate ''y'' [''id''] True = Inr washed_gap"
  unfolding wash_data_def Let_def columns_cleaned cleaned_with_duplicate forest_deduplicated
  by (simp add: deduplicated_def washed_gap_def select_columns_def column_names_def list_remove_def
      drop_labels_def index_def)

lemma cleaned_plain:
  "dropna (drop_duplicates plain) \<lfloor>real (length (columns plain)) * (6 / 10)\<rfloor> = plain"
  by (simp add: drop_duplicates_def dropna_def count_present_def plain_def)

lemma forest_plain: "isolation_forest spike_scorer plain ''y'' [''id''] = Inr [12]"
  by (simp add: isolation_forest_def fit_transform_def fit_transform_column_def NaFiller_def
      plain_def frame_defs list_remove_def remove_present_def select_columns_def
      spike_scorer_def Let_def pairwise_sum.simps add_blocks.simps imputer_means
      mean_detection_spike [unfolded spike_scores_def, simplified])

lemma wash_plain_True:
  "wash_data spike_scorer plain ''y'' [''id''] True = Inr washed_plain"
  unfolding wash_data_def Let_def columns_cleaned cleaned_plain forest_plain
  by (simp add: plain_def washed_plain_def select_columns_def column_names_def list_remove_def
      drop_labels_def index_def)

lemma cleaned_flagged_first:
  "dropna (drop_duplicates flagged_first) \<lfloor>real (length (columns flagged_first)) * (6 / 10)\<rfloor>
     = flagged_first_cleaned"
  by (simp add: drop_duplicates_def dropna_def count_present_def flagged_first_def
      flagged_first_cleaned_def)

lemma forest_flagged_first:
  "isolation_forest spike_scorer flagged_first_cleaned ''y'' [''id''] = Inr [0]"
  by (simp add: isolation_forest_def fit_transform_def fit_transform_column_def NaFiller_def
      flagged_first_cleaned_def frame_defs list_remove_def remove_present_def select_columns_def
      spike_scorer_def Let_def pairwise_sum.simps add_blocks.simps imputer_means
      mean_detection_first [unfolded first_scores_def, simplified])

lemma wash_flagged_first_True:
  "wash_data spike_scorer flagged_first ''y'' [''id''] True = Inr washed_first"
  unfolding wash_data_def Let_def columns_cleaned cleaned_flagged_first forest_flagged_first
  by (simp add: flagged_first_cleaned_def washed_first_def select_columns_def column_names_def
      list_remove_def drop_labels_def index_def)

lemma all_less_13:
  "(\<forall>i<13. P i) =
     (P 0 \<and> P 1 \<and> P 2 \<and> P 3 \<and> P 4 \<and> P 5 \<and> P 6 \<and> P 7 \<and> P 8 \<and> P 9 \<and> P 10 \<and> P 11
      \<and> P (12::nat))"
proof -
  have "{..<13::nat} = {0, 1, 2, 3, 4, 5, 6, 7, 8, 9, 10, 11, 12}" by auto arith
  then have "(\<forall>i\<in>{..<13::nat}. P i) = (\<forall>i\<in>{0, 1, 2, 3, 4, 5, 6, 7, 8, 9, 10, 11, 12}. P i)"
    by simp
  moreover have "(\<forall>i\<in>{..<13::nat}. P i) = (\<forall>i<13. P i)" by auto
  ultimately show ?thesis by simp
qed

lemmas wash_defs =
  wash_data_def drop_duplicates_def dropna_def count_present_def isolation_forest_def
  fit_transform_def fit_transform_column_def NaFiller_def list_remove_def remove_present_def
  select_columns_def flat_scorer_def pairwise_sum.simps imputer_means

lemma wash_sparse_dup:
  "wash_data flat_scorer sparse_dup ''y'' [''id''] False = Inr sparse_dup_out"
  using mean_detection_flat [of 4]
  by (simp add: wash_defs frame_defs sparse_dup_def sparse_dup_out_def Let_def numeral_eq_Suc)

lemma wash_small_frame:
  "wash_data flat_scorer small_frame ''y'' [] False = Inr small_out"
  using mean_detection_flat [of 3]
  by (simp add: wash_defs frame_defs small_frame_def small_out_def Let_def numeral_eq_Suc)

text \<open>
  C3. The claim: the frame \<open>wash_data\<close> returns has no two equal rows and no row with
  more missing values than 40 percent of the columns of the input. On \<open>sparse_dup\<close> it
  returns two equal rows (they differed in the id, which is dropped last), and a row
  with 2 missing values, more than 40 percent of 4 columns (the threshold is
  \<^verbatim>\<open>int(4 * 0.6)\<close>, that is 2 cells present).
\<close>

theorem wash_data_counterexample:
  "wash_data flat_scorer sparse_dup ''y'' [''id''] False = Inr sparse_dup_out
   \<and> \<not> distinct (map snd (rows sparse_dup_out))
   \<and> real (length (snd (rows sparse_dup_out ! 2)) - count_present (snd (rows sparse_dup_out ! 2)))
       > 4 / 10 * real (length (columns sparse_dup))"
proof -
  have dup: "\<not> distinct (map snd (rows sparse_dup_out))"
    by (simp add: sparse_dup_out_def)
  have sparse: "real (length (snd (rows sparse_dup_out ! 2)) - count_present (snd (rows sparse_dup_out ! 2)))
       > 4 / 10 * real (length (columns sparse_dup))"
    by (simp add: sparse_dup_out_def sparse_dup_def count_present_def)
  from wash_sparse_dup dup sparse show ?thesis by simp
qed

lemma remove_each_distinct:
  assumes "remove_each feature_column id_columns = Inr remaining" and "distinct feature_column"
  shows "set remaining = set feature_column - set id_columns \<and> distinct remaining"
  using assms
proof (induction id_columns arbitrary: feature_column)
  case Nil
  then show ?case by simp
next
  case (Cons element id_columns)
  from Cons.prems(1) have mem: "element \<in> set feature_column"
    and rest: "remove_each (remove1 element feature_column) id_columns = Inr remaining"
    by (auto simp: list_remove_def split: if_splits)
  have "distinct (remove1 element feature_column)"
    using Cons.prems(2) by simp
  from Cons.IH [OF rest this] Cons.prems(2) show ?case
    by auto
qed

text \<open>
  C3, amended. The frame \<open>wash_data\<close> returns has the columns of the input without
  the id columns, and its rows are, in these columns, rows of the input in their order
  (\<open>kept\<close>) that are pairwise different as whole rows, the id columns included, and
  that each have at least \<^verbatim>\<open>int(0.6 * ncols)\<close> cells present, \<open>ncols\<close> the number
  of columns of the input. When the column names of the input are distinct, no id
  column is left in the result. With no id columns the returned rows are the kept rows
  themselves, so no two of them are equal.
\<close>

theorem wash_data_kept_rows:
  assumes "wash_data score data0 target_column id_columns outlier = Inr out"
  shows "\<exists>kept. subseq kept (rows data0) \<and> distinct (map snd kept)
           \<and> list_all (\<lambda>row. \<lfloor>real (length (columns data0)) * (6 / 10)\<rfloor>
                                 \<le> int (count_present (snd row))) kept
           \<and> remove_each (column_names data0) id_columns = Inr (column_names out)
           \<and> select_columns (data0\<lparr>rows := kept\<rparr>) (column_names out) = Inr out
           \<and> (distinct (column_names data0)
                \<longrightarrow> set (column_names out) = set (column_names data0) - set id_columns)
           \<and> (id_columns = [] \<and> wf_table data0 \<and> distinct (column_names data0)
                \<longrightarrow> map snd (rows out) = map snd kept)"
proof -
  let ?thresh = "\<lfloor>real (length (columns data0)) * (6 / 10)\<rfloor>"
  let ?cleaned = "dropna (drop_duplicates data0) ?thresh"
  let ?enough = "\<lambda>row. ?thresh \<le> int (count_present (snd row))"
  obtain outlier_index data3 feature_column where
    dropped: "if outlier then drop_labels ?cleaned (map int outlier_index) = Inr data3
              else data3 = ?cleaned"
    and removed: "remove_each (column_names data3) id_columns = Inr feature_column"
    and selected: "select_columns data3 feature_column = Inr out"
    using wash_data_Inr [OF assms refl] by blast
  define kept where "kept = rows data3"
  have cleaned: "?cleaned = data0\<lparr>rows := filter ?enough (keep_first [] (rows data0))\<rparr>"
    by (rule cleaned_rows_update)
  have rows3: "rows data3 = filter ?enough (keep_first [] (rows data0)) \<or>
      rows data3 = filter (\<lambda>row. fst row \<notin> set (map int outlier_index))
                     (filter ?enough (keep_first [] (rows data0)))"
    using dropped cleaned by (auto dest!: drop_labels_Inr split: if_splits)
  have data3: "data3 = data0\<lparr>rows := kept\<rparr>"
    using dropped cleaned unfolding kept_def by (auto dest!: drop_labels_Inr split: if_splits)
  have sub: "subseq kept (rows data0)"
  proof -
    have "subseq (filter ?enough (keep_first [] (rows data0))) (rows data0)"
      using subseq_filter_left subseq_keep_first by (rule subseq_order.trans)
    moreover have "subseq (filter (\<lambda>row. fst row \<notin> set (map int outlier_index))
                     (filter ?enough (keep_first [] (rows data0)))) (rows data0)"
      using subseq_filter_left calculation by (rule subseq_order.trans)
    ultimately show ?thesis using rows3 unfolding kept_def by auto
  qed
  have dist: "distinct (map snd kept)"
    using rows3 unfolding kept_def
    by (auto intro!: distinct_map_filter distinct_keep_first)
  have enough: "list_all ?enough kept"
    using rows3 unfolding kept_def by (auto simp: list_all_iff)
  have names: "column_names out = feature_column"
    using selected by (rule select_columns_Inr)
  have same_columns: "column_names data3 = column_names data0"
    using data3 by (simp add: column_names_def)
  have without_ids: "remove_each (column_names data0) id_columns = Inr (column_names out)"
    using removed names same_columns by simp
  have sel: "select_columns (data0\<lparr>rows := kept\<rparr>) (column_names out) = Inr out"
    using selected data3 names by simp
  have no_id: "set (column_names out) = set (column_names data0) - set id_columns"
    if "distinct (column_names data0)"
    using remove_each_distinct [OF without_ids that] by simp
  have whole: "map snd (rows out) = map snd kept"
    if "id_columns = []" and wf: "wf_table data0" and dn: "distinct (column_names data0)"
  proof -
    have "feature_column = column_names data0"
      using removed that(1) data3 by (simp add: column_names_def)
    with sel names have
      "rows out = map (\<lambda>row. (fst row,
           map (\<lambda>c. snd row ! index_of (column_names data0) c) (column_names data0))) kept"
      by (auto simp: select_columns_rows_update split: if_splits)
    moreover have "map (\<lambda>c. snd row ! index_of (column_names data0) c) (column_names data0) = snd row"
      if "row \<in> set kept" for row
    proof -
      have "row \<in> set (rows data0)"
        using that sub by (auto dest: list_emb_set)
      then have "length (snd row) = length (column_names data0)"
        using wf by (auto simp: wf_table_def list_all_iff column_names_def)
      with dn show ?thesis by (rule project_all_columns)
    qed
    ultimately show ?thesis by simp
  qed
  from sub dist enough without_ids sel no_id whole show ?thesis by blast
qed

theorem wash_data_kept_rows_witness:
  "wash_data flat_scorer sparse_dup ''y'' [''id''] False = Inr sparse_dup_out
   \<and> distinct (column_names sparse_dup)
   \<and> (\<exists>kept. subseq kept (rows sparse_dup) \<and> distinct (map snd kept)
           \<and> list_all (\<lambda>row. \<lfloor>real (length (columns sparse_dup)) * (6 / 10)\<rfloor>
                                 \<le> int (count_present (snd row))) kept
           \<and> remove_each (column_names sparse_dup) [''id''] = Inr (column_names sparse_dup_out)
           \<and> select_columns (sparse_dup\<lparr>rows := kept\<rparr>) (column_names sparse_dup_out)
               = Inr sparse_dup_out
           \<and> set (column_names sparse_dup_out) = set (column_names sparse_dup) - set [''id''])
   \<and> wash_data flat_scorer small_frame ''y'' [] False = Inr small_out
   \<and> wf_table small_frame \<and> distinct (column_names small_frame)
   \<and> (\<exists>kept. subseq kept (rows small_frame) \<and> distinct (map snd kept)
           \<and> list_all (\<lambda>row. \<lfloor>real (length (columns small_frame)) * (6 / 10)\<rfloor>
                                 \<le> int (count_present (snd row))) kept
           \<and> remove_each (column_names small_frame) [] = Inr (column_names small_out)
           \<and> select_columns (small_frame\<lparr>rows := kept\<rparr>) (column_names small_out) = Inr small_out
           \<and> set (column_names small_out) = set (column_names small_frame) - set []
           \<and> map snd (rows small_out) = map snd kept)"
proof -
  have dn_sparse: "distinct (column_names sparse_dup)"
    by (simp add: column_names_def sparse_dup_def)
  have wf: "wf_table small_frame" by (simp add: wf_table_def small_frame_def)
  have dn: "distinct (column_names small_frame)" by (simp add: column_names_def small_frame_def)
  have with_id: "\<exists>kept. subseq kept (rows sparse_dup) \<and> distinct (map snd kept)
           \<and> list_all (\<lambda>row. \<lfloor>real (length (columns sparse_dup)) * (6 / 10)\<rfloor>
                                 \<le> int (count_present (snd row))) kept
           \<and> remove_each (column_names sparse_dup) [''id''] = Inr (column_names sparse_dup_out)
           \<and> select_columns (sparse_dup\<lparr>rows := kept\<rparr>) (column_names sparse_dup_out)
               = Inr sparse_dup_out
           \<and> set (column_names sparse_dup_out) = set (column_names sparse_dup) - set [''id'']"
    using wash_data_kept_rows [OF wash_sparse_dup] dn_sparse by blast
  have no_id: "\<exists>kept. subseq kept (rows small_frame) \<and> distinct (map snd kept)
           \<and> list_all (\<lambda>row. \<lfloor>real (length (columns small_frame)) * (6 / 10)\<rfloor>
                                 \<le> int (count_present (snd row))) kept
           \<and> remove_each (column_names small_frame) [] = Inr (column_names small_out)
           \<and> select_columns (small_frame\<lparr>rows := kept\<rparr>) (column_names small_out) = Inr small_out
           \<and> set (column_names small_out) = set (column_names small_frame) - set []
           \<and> map snd (rows small_out) = map snd kept"
    using wash_data_kept_rows [OF wash_small_frame] wf dn by blast
  from wash_sparse_dup dn_sparse with_id wash_small_frame wf dn no_id
  show ?thesis by (intro conjI)
qed

text \<open>
  With \<open>outlier = False\<close> the frame returned holds every row that the removal of
  duplicates and of sparse rows has left.
\<close>

lemma wash_data_reports_only:
  assumes "wash_data score data0 target_column id_columns False = Inr out"
  shows "select_columns
           (dropna (drop_duplicates data0) \<lfloor>real (length (columns data0)) * (6 / 10)\<rfloor>)
           (column_names out) = Inr out"
proof -
  obtain feature_column where
    "select_columns (dropna (drop_duplicates data0) \<lfloor>real (length (columns data0)) * (6 / 10)\<rfloor>)
       feature_column = Inr out"
    using wash_data_Inr [OF assms refl] by auto
  then show ?thesis using select_columns_Inr by fastforce
qed

text \<open>
  C8. With \<open>outlier = True\<close> the flagged rows are to be dropped. In \<open>with_duplicate\<close>
  the cleaning removes the second row, the detection flags position 12 of what is left,
  the row with the feature 100 and the label 13. With \<open>outlier = False\<close> all thirteen
  rows are returned. With \<open>outlier = True\<close> the row with the label 12 is dropped, which
  was not flagged, and the flagged row is returned.
\<close>

theorem wash_data_drops_unflagged_row:
  "dropna (drop_duplicates with_duplicate) \<lfloor>real (length (columns with_duplicate)) * (6 / 10)\<rfloor>
     = deduplicated
   \<and> isolation_forest spike_scorer deduplicated ''y'' [''id''] = Inr [12]
   \<and> rows deduplicated ! 12 = (13, [Num 13, Num 100, Num 1])
   \<and> wash_data spike_scorer with_duplicate ''y'' [''id''] False = Inr washed_all
   \<and> wash_data spike_scorer with_duplicate ''y'' [''id''] True = Inr washed_gap
   \<and> (13, [Num 100, Num 1]) \<in> set (rows washed_gap)
   \<and> (12, [Num 1, Num 0]) \<in> set (rows washed_all)
   \<and> (12, [Num 1, Num 0]) \<notin> set (rows washed_gap)"
proof -
  have flagged: "rows deduplicated ! 12 = (13, [Num 13, Num 100, Num 1])"
    by (simp add: deduplicated_def)
  have kept: "(13, [Num 100, Num 1]) \<in> set (rows washed_gap)"
    by (simp add: washed_gap_def)
  have before: "(12, [Num 1, Num 0]) \<in> set (rows washed_all)"
    by (simp add: washed_all_def)
  have gone: "(12, [Num 1, Num 0]) \<notin> set (rows washed_gap)"
    by (simp add: washed_gap_def)
  from cleaned_with_duplicate forest_deduplicated flagged wash_with_duplicate_False
    wash_with_duplicate_True kept before gone
  show ?thesis by simp
qed

text \<open>
  Removing the rows whose label is in a list of positions, and removing the rows at these
  positions: when they are the same.
\<close>

lemma by_label_is_by_position:
  assumes "\<forall>i<length rs. (fst (rs ! i) \<in> set (map int ps)) = (i \<in> set ps)"
  shows "filter (\<lambda>row. fst row \<notin> set (map int ps)) rs = nths rs {p. p \<notin> set ps}"
proof -
  have "filter (\<lambda>row. fst row \<notin> set (map int ps)) rs =
        nths rs {i. i < length rs \<and> fst (rs ! i) \<notin> set (map int ps)}"
    by (rule filter_eq_nths)
  also have "\<dots> = nths rs {p. p \<notin> set ps}"
    by (rule nths_cong_below) (use assms in auto)
  finally show ?thesis .
qed

lemma by_position_is_by_label:
  assumes "distinct (map fst rs)"
    and "filter (\<lambda>row. fst row \<notin> set (map int ps)) rs = nths rs {p. p \<notin> set ps}"
  shows "\<forall>i<length rs. (fst (rs ! i) \<in> set (map int ps)) = (i \<in> set ps)"
proof (intro allI impI)
  fix i assume i: "i < length rs"
  have d: "distinct rs" using assms(1) by (simp add: distinct_map)
  have mem: "rs ! i \<in> set rs" using i by simp
  have kept: "(rs ! i \<in> set (filter (\<lambda>row. fst row \<notin> set (map int ps)) rs))
          = (fst (rs ! i) \<notin> set (map int ps))"
    using mem by simp
  have at: "(rs ! i \<in> set (nths rs {p. p \<notin> set ps})) = (i \<notin> set ps)"
  proof
    assume "rs ! i \<in> set (nths rs {p. p \<notin> set ps})"
    then obtain j where "j < length rs" and "rs ! i = rs ! j" and "j \<notin> set ps"
      by (auto simp: set_nths)
    with d i show "i \<notin> set ps" by (simp add: nth_eq_iff_index_eq)
  next
    assume "i \<notin> set ps"
    with i show "rs ! i \<in> set (nths rs {p. p \<notin> set ps})" by (auto simp: set_nths)
  qed
  have "(rs ! i \<in> set (filter (\<lambda>row. fst row \<notin> set (map int ps)) rs))
          = (rs ! i \<in> set (nths rs {p. p \<notin> set ps}))"
    by (simp only: assms(2))
  with kept at show "(fst (rs ! i) \<in> set (map int ps)) = (i \<in> set ps)"
    by blast
qed

lemma label_not_position:
  assumes "map fst rs \<noteq> map int [0..<length rs]"
  shows "\<exists>p<length rs. \<not> set [int p] \<subseteq> set (map fst rs)
           \<or> filter (\<lambda>row. fst row \<notin> set [int p]) rs \<noteq> nths rs {q. q \<noteq> p}"
proof -
  have "\<exists>i<length rs. fst (rs ! i) \<noteq> int i"
  proof (rule ccontr)
    assume "\<not> (\<exists>i<length rs. fst (rs ! i) \<noteq> int i)"
    then have "map fst rs = map int [0..<length rs]"
      by (intro nth_equalityI) auto
    with assms show False by simp
  qed
  then obtain i where i: "i < length rs" and ne: "fst (rs ! i) \<noteq> int i" by blast
  show ?thesis
  proof (cases "int i \<in> set (map fst rs)")
    case False
    with i show ?thesis by auto
  next
    case True
    then obtain j where j: "j < length rs" and label: "fst (rs ! j) = int i"
      by (auto simp: in_set_conv_nth)
    have "j \<noteq> i" using label ne by auto
    with j have "rs ! j \<in> set (nths rs {q. q \<noteq> i})" by (auto simp: set_nths)
    moreover have "rs ! j \<notin> set (filter (\<lambda>row. fst row \<notin> set [int i]) rs)"
      using label by simp
    ultimately have "filter (\<lambda>row. fst row \<notin> set [int i]) rs \<noteq> nths rs {q. q \<noteq> i}"
      by metis
    with i show ?thesis by blast
  qed
qed

lemma drop_label_not_position:
  assumes "index data \<noteq> map int [0..<length (rows data)]"
  shows "\<exists>p<length (rows data).
           drop_labels data [int p] \<noteq> Inr (data\<lparr>rows := nths (rows data) {q. q \<noteq> p}\<rparr>)"
proof -
  obtain p where p: "p < length (rows data)"
    and differ: "\<not> set [int p] \<subseteq> set (map fst (rows data))
       \<or> filter (\<lambda>row. fst row \<notin> set [int p]) (rows data) \<noteq> nths (rows data) {q. q \<noteq> p}"
    using label_not_position [of "rows data"] assms unfolding index_def by blast
  have "drop_labels data [int p] \<noteq> Inr (data\<lparr>rows := nths (rows data) {q. q \<noteq> p}\<rparr>)"
  proof
    assume eq: "drop_labels data [int p] = Inr (data\<lparr>rows := nths (rows data) {q. q \<noteq> p}\<rparr>)"
    then have sub: "set [int p] \<subseteq> set (index data)"
      by (auto simp: drop_labels_def split: if_splits)
    with eq have "data\<lparr>rows := filter (\<lambda>row. fst row \<notin> set [int p]) (rows data)\<rparr>
        = data\<lparr>rows := nths (rows data) {q. q \<noteq> p}\<rparr>"
      by (simp add: drop_labels_def)
    then have "rows (data\<lparr>rows := filter (\<lambda>row. fst row \<notin> set [int p]) (rows data)\<rparr>)
        = rows (data\<lparr>rows := nths (rows data) {q. q \<noteq> p}\<rparr>)"
      by (rule arg_cong)
    then have "filter (\<lambda>row. fst row \<notin> set [int p]) (rows data) = nths (rows data) {q. q \<noteq> p}"
      by simp
    with differ sub show False by (simp add: index_def)
  qed
  with p show ?thesis by blast
qed

text \<open>
  C9. The claim: with \<open>outlier = True\<close> the rows removed are those whose label is in
  the list of flagged positions, and these are the rows at the flagged positions only
  for inputs whose labels after the cleaning are the positions. The first part holds;
  the second does not. In \<open>flagged_first\<close> the cleaning removes the third row and
  leaves the labels 0, 1, 3, ..., 13, which are not the positions; the detection flags
  position 0, and the row with the label 0 is the row at position 0: the row removed
  is the flagged one.
\<close>

theorem wash_data_coincides_off_default_index:
  "dropna (drop_duplicates flagged_first) \<lfloor>real (length (columns flagged_first)) * (6 / 10)\<rfloor>
     = flagged_first_cleaned
   \<and> index flagged_first_cleaned = [0, 1, 3, 4, 5, 6, 7, 8, 9, 10, 11, 12, 13]
   \<and> index flagged_first_cleaned \<noteq> map int [0..<length (rows flagged_first_cleaned)]
   \<and> isolation_forest spike_scorer flagged_first_cleaned ''y'' [''id''] = Inr [0]
   \<and> rows flagged_first_cleaned ! 0 = (0, [Num 1, Num 100, Num 1])
   \<and> filter (\<lambda>row. fst row \<notin> set (map int [0])) (rows flagged_first_cleaned)
       = nths (rows flagged_first_cleaned) {p. p \<notin> set [0]}
   \<and> wash_data spike_scorer flagged_first ''y'' [''id''] True = Inr washed_first
   \<and> 0 \<notin> set (index washed_first)"
proof -
  have labels: "index flagged_first_cleaned = [0, 1, 3, 4, 5, 6, 7, 8, 9, 10, 11, 12, 13]"
    by (simp add: index_def flagged_first_cleaned_def)
  have n: "length (rows flagged_first_cleaned) = 13"
    by (simp add: flagged_first_cleaned_def)
  have other: "index flagged_first_cleaned \<noteq> map int [0..<length (rows flagged_first_cleaned)]"
    unfolding labels n upt_13 by simp
  have flagged: "rows flagged_first_cleaned ! 0 = (0, [Num 1, Num 100, Num 1])"
    by (simp add: flagged_first_cleaned_def)
  have "\<forall>i<length (rows flagged_first_cleaned).
          (fst (rows flagged_first_cleaned ! i) \<in> set (map int [0])) = (i \<in> set [0])"
    unfolding n by (simp add: all_less_13 flagged_first_cleaned_def)
  then have same: "filter (\<lambda>row. fst row \<notin> set (map int [0])) (rows flagged_first_cleaned)
       = nths (rows flagged_first_cleaned) {p. p \<notin> set [0]}"
    by (rule by_label_is_by_position)
  have gone: "0 \<notin> set (index washed_first)"
    by (simp add: index_def washed_first_def)
  from cleaned_flagged_first labels other forest_flagged_first flagged same
    wash_flagged_first_True gone
  show ?thesis by (intro conjI)
qed

text \<open>
  C9, amended. With \<open>outlier = True\<close> the rows \<open>wash_data\<close> removes from the
  cleaned frame are the rows whose index label is in the list of flagged positions: the
  frame returned is the cleaned frame without them, and without the id columns. These
  are the rows at the flagged positions if every row has its label in the list
  exactly when its position is in it, and, the labels being distinct, only then. It is
  so when the labels of the cleaned frame are its positions, but not only then. When
  they are not, there is a position whose removal by label is not its removal by
  position: it removes other rows, or raises.
  The witness has the three cases: in \<open>plain\<close> the labels are the positions and the
  flagged row goes; in \<open>flagged_first\<close> they are not, and the flagged row goes; in
  \<open>with_duplicate\<close> the cleaning leaves the labels 0, 2, ..., 13, position 12 is
  flagged, the row at position 11 has the label 12 and goes, and the flagged row,
  labelled 13, stays.
\<close>

theorem wash_data_drops_by_label:
  assumes "cleaned = dropna (drop_duplicates data0) \<lfloor>real (length (columns data0)) * (6 / 10)\<rfloor>"
    and "wash_data score data0 target_column id_columns True = Inr out"
  shows "\<exists>outlier_index.
           isolation_forest score cleaned target_column id_columns = Inr outlier_index
         \<and> select_columns
              (cleaned\<lparr>rows := filter (\<lambda>row. fst row \<notin> set (map int outlier_index)) (rows cleaned)\<rparr>)
              (column_names out) = Inr out
         \<and> remove_each (column_names data0) id_columns = Inr (column_names out)
         \<and> ((\<forall>i<length (rows cleaned).
                 (index cleaned ! i \<in> set (map int outlier_index)) = (i \<in> set outlier_index)) \<longrightarrow>
              filter (\<lambda>row. fst row \<notin> set (map int outlier_index)) (rows cleaned) =
              nths (rows cleaned) {p. p \<notin> set outlier_index})
         \<and> (distinct (index cleaned)
              \<and> filter (\<lambda>row. fst row \<notin> set (map int outlier_index)) (rows cleaned) =
                nths (rows cleaned) {p. p \<notin> set outlier_index} \<longrightarrow>
              (\<forall>i<length (rows cleaned).
                 (index cleaned ! i \<in> set (map int outlier_index)) = (i \<in> set outlier_index)))
         \<and> (index cleaned = map int [0..<length (rows cleaned)] \<longrightarrow>
              filter (\<lambda>row. fst row \<notin> set (map int outlier_index)) (rows cleaned) =
              nths (rows cleaned) {p. p \<notin> set outlier_index})
         \<and> (index cleaned \<noteq> map int [0..<length (rows cleaned)] \<longrightarrow>
              (\<exists>p<length (rows cleaned).
                 drop_labels cleaned [int p] \<noteq>
                 Inr (cleaned\<lparr>rows := nths (rows cleaned) {q. q \<noteq> p}\<rparr>)))"
proof -
  obtain outlier_index data3 feature_column where
    forest: "isolation_forest score cleaned target_column id_columns = Inr outlier_index"
    and dropped: "drop_labels cleaned (map int outlier_index) = Inr data3"
    and removed: "remove_each (column_names data3) id_columns = Inr feature_column"
    and selected: "select_columns data3 feature_column = Inr out"
    using wash_data_Inr [OF assms(2) assms(1)] by auto
  let ?by_label = "filter (\<lambda>row. fst row \<notin> set (map int outlier_index)) (rows cleaned)"
  let ?by_position = "nths (rows cleaned) {p. p \<notin> set outlier_index}"
  let ?agree = "\<forall>i<length (rows cleaned).
      (index cleaned ! i \<in> set (map int outlier_index)) = (i \<in> set outlier_index)"
  have data3: "data3 = cleaned\<lparr>rows := ?by_label\<rparr>"
    using dropped by (rule drop_labels_Inr)
  have names: "column_names out = feature_column"
    using selected by (rule select_columns_Inr)
  have by_label: "select_columns (cleaned\<lparr>rows := ?by_label\<rparr>) (column_names out) = Inr out"
    using selected data3 names by simp
  have "column_names data3 = column_names data0"
    using data3 assms(1) by (simp add: column_names_def)
  with removed names have without_ids:
    "remove_each (column_names data0) id_columns = Inr (column_names out)"
    by simp
  have label: "index cleaned ! i = fst (rows cleaned ! i)" if "i < length (rows cleaned)" for i
    using that by (simp add: index_def)
  have "if": "?by_label = ?by_position" if ?agree
  proof (rule by_label_is_by_position)
    show "\<forall>i<length (rows cleaned).
        (fst (rows cleaned ! i) \<in> set (map int outlier_index)) = (i \<in> set outlier_index)"
      using that label by simp
  qed
  have only_if: ?agree if "distinct (index cleaned)" and "?by_label = ?by_position"
    using by_position_is_by_label [of "rows cleaned" outlier_index] that label
    by (simp add: index_def)
  have positions: "?by_label = ?by_position"
    if "index cleaned = map int [0..<length (rows cleaned)]"
    using that unfolding index_def by (rule filter_by_label_positions)
  have other: "\<exists>p<length (rows cleaned).
      drop_labels cleaned [int p] \<noteq> Inr (cleaned\<lparr>rows := nths (rows cleaned) {q. q \<noteq> p}\<rparr>)"
    if "index cleaned \<noteq> map int [0..<length (rows cleaned)]"
    using that by (rule drop_label_not_position)
  from forest by_label without_ids "if" only_if positions other show ?thesis by blast
qed

theorem wash_data_drops_by_label_witness:
  "plain = dropna (drop_duplicates plain) \<lfloor>real (length (columns plain)) * (6 / 10)\<rfloor>
   \<and> wash_data spike_scorer plain ''y'' [''id''] True = Inr washed_plain
   \<and> isolation_forest spike_scorer plain ''y'' [''id''] = Inr [12]
   \<and> select_columns
        (plain\<lparr>rows := filter (\<lambda>row. fst row \<notin> set (map int [12])) (rows plain)\<rparr>)
        (column_names washed_plain) = Inr washed_plain
   \<and> remove_each (column_names plain) [''id''] = Inr (column_names washed_plain)
   \<and> index plain = map int [0..<length (rows plain)]
   \<and> filter (\<lambda>row. fst row \<notin> set (map int [12])) (rows plain) = nths (rows plain) {p. p \<notin> set [12]}
   \<and> fst (rows plain ! 12) = 12 \<and> 12 \<notin> set (index washed_plain)
   \<and> flagged_first_cleaned =
       dropna (drop_duplicates flagged_first) \<lfloor>real (length (columns flagged_first)) * (6 / 10)\<rfloor>
   \<and> wash_data spike_scorer flagged_first ''y'' [''id''] True = Inr washed_first
   \<and> isolation_forest spike_scorer flagged_first_cleaned ''y'' [''id''] = Inr [0]
   \<and> index flagged_first_cleaned \<noteq> map int [0..<length (rows flagged_first_cleaned)]
   \<and> filter (\<lambda>row. fst row \<notin> set (map int [0])) (rows flagged_first_cleaned)
       = nths (rows flagged_first_cleaned) {p. p \<notin> set [0]}
   \<and> (\<exists>p<length (rows flagged_first_cleaned).
         drop_labels flagged_first_cleaned [int p] \<noteq>
         Inr (flagged_first_cleaned\<lparr>rows := nths (rows flagged_first_cleaned) {q. q \<noteq> p}\<rparr>))
   \<and> deduplicated =
       dropna (drop_duplicates with_duplicate) \<lfloor>real (length (columns with_duplicate)) * (6 / 10)\<rfloor>
   \<and> wash_data spike_scorer with_duplicate ''y'' [''id''] True = Inr washed_gap
   \<and> isolation_forest spike_scorer deduplicated ''y'' [''id''] = Inr [12]
   \<and> select_columns
        (deduplicated\<lparr>rows := filter (\<lambda>row. fst row \<notin> set (map int [12])) (rows deduplicated)\<rparr>)
        (column_names washed_gap) = Inr washed_gap
   \<and> distinct (index deduplicated)
   \<and> index deduplicated ! 11 \<in> set (map int [12]) \<and> 11 \<notin> set [12::nat]
   \<and> filter (\<lambda>row. fst row \<notin> set (map int [12])) (rows deduplicated)
       \<noteq> nths (rows deduplicated) {p. p \<notin> set [12]}
   \<and> fst (rows deduplicated ! 12) = 13 \<and> 13 \<in> set (index washed_gap)
   \<and> fst (rows deduplicated ! 11) = 12 \<and> 12 \<notin> set (index washed_gap)"
proof -
  have plain_labels: "index plain = map int [0..<length (rows plain)]"
    by (simp add: index_def plain_def upt_rec)
  obtain flagged_plain where
    "isolation_forest spike_scorer plain ''y'' [''id''] = Inr flagged_plain"
    and "select_columns
        (plain\<lparr>rows := filter (\<lambda>row. fst row \<notin> set (map int flagged_plain)) (rows plain)\<rparr>)
        (column_names washed_plain) = Inr washed_plain"
    and "remove_each (column_names plain) [''id''] = Inr (column_names washed_plain)"
    and "index plain = map int [0..<length (rows plain)] \<longrightarrow>
         filter (\<lambda>row. fst row \<notin> set (map int flagged_plain)) (rows plain) =
         nths (rows plain) {p. p \<notin> set flagged_plain}"
    using wash_data_drops_by_label [OF cleaned_plain [symmetric] wash_plain_True] by blast
  then have plain_sel: "select_columns
        (plain\<lparr>rows := filter (\<lambda>row. fst row \<notin> set (map int [12])) (rows plain)\<rparr>)
        (column_names washed_plain) = Inr washed_plain"
    and plain_cols: "remove_each (column_names plain) [''id''] = Inr (column_names washed_plain)"
    and plain_same: "filter (\<lambda>row. fst row \<notin> set (map int [12])) (rows plain) =
         nths (rows plain) {p. p \<notin> set [12]}"
    using forest_plain plain_labels by auto
  have plain_rows: "fst (rows plain ! 12) = 12 \<and> 12 \<notin> set (index washed_plain)"
    by (simp add: plain_def washed_plain_def index_def)

  have first_n: "length (rows flagged_first_cleaned) = 13"
    by (simp add: flagged_first_cleaned_def)
  have first_labels: "index flagged_first_cleaned \<noteq> map int [0..<length (rows flagged_first_cleaned)]"
    unfolding first_n upt_13 by (simp add: index_def flagged_first_cleaned_def)
  have first_agree: "\<forall>i<length (rows flagged_first_cleaned).
      (index flagged_first_cleaned ! i \<in> set (map int [0])) = (i \<in> set [0])"
    unfolding first_n by (simp add: all_less_13 index_def flagged_first_cleaned_def)
  obtain flagged_first_index where
    "isolation_forest spike_scorer flagged_first_cleaned ''y'' [''id''] = Inr flagged_first_index"
    and "(\<forall>i<length (rows flagged_first_cleaned).
            (index flagged_first_cleaned ! i \<in> set (map int flagged_first_index))
              = (i \<in> set flagged_first_index)) \<longrightarrow>
         filter (\<lambda>row. fst row \<notin> set (map int flagged_first_index)) (rows flagged_first_cleaned) =
         nths (rows flagged_first_cleaned) {p. p \<notin> set flagged_first_index}"
    and "index flagged_first_cleaned \<noteq> map int [0..<length (rows flagged_first_cleaned)] \<longrightarrow>
         (\<exists>p<length (rows flagged_first_cleaned).
            drop_labels flagged_first_cleaned [int p] \<noteq>
            Inr (flagged_first_cleaned\<lparr>rows := nths (rows flagged_first_cleaned) {q. q \<noteq> p}\<rparr>))"
    using wash_data_drops_by_label [OF cleaned_flagged_first [symmetric] wash_flagged_first_True]
    by blast
  then have first_same: "filter (\<lambda>row. fst row \<notin> set (map int [0])) (rows flagged_first_cleaned)
       = nths (rows flagged_first_cleaned) {p. p \<notin> set [0]}"
    and first_other: "\<exists>p<length (rows flagged_first_cleaned).
         drop_labels flagged_first_cleaned [int p] \<noteq>
         Inr (flagged_first_cleaned\<lparr>rows := nths (rows flagged_first_cleaned) {q. q \<noteq> p}\<rparr>)"
    using forest_flagged_first first_agree first_labels by auto

  have gap_distinct: "distinct (index deduplicated)"
    by (simp add: index_def deduplicated_def)
  have gap_label: "index deduplicated ! 11 \<in> set (map int [12])" "11 \<notin> set [12::nat]"
    by (simp_all add: index_def deduplicated_def)
  have gap_n: "11 < length (rows deduplicated)"
    by (simp add: deduplicated_def)
  obtain flagged_gap where
    "isolation_forest spike_scorer deduplicated ''y'' [''id''] = Inr flagged_gap"
    and "select_columns
        (deduplicated\<lparr>rows := filter (\<lambda>row. fst row \<notin> set (map int flagged_gap)) (rows deduplicated)\<rparr>)
        (column_names washed_gap) = Inr washed_gap"
    and "distinct (index deduplicated)
         \<and> filter (\<lambda>row. fst row \<notin> set (map int flagged_gap)) (rows deduplicated) =
           nths (rows deduplicated) {p. p \<notin> set flagged_gap} \<longrightarrow>
         (\<forall>i<length (rows deduplicated).
            (index deduplicated ! i \<in> set (map int flagged_gap)) = (i \<in> set flagged_gap))"
    using wash_data_drops_by_label [OF cleaned_with_duplicate [symmetric] wash_with_duplicate_True]
    by blast
  then have gap_sel: "select_columns
        (deduplicated\<lparr>rows := filter (\<lambda>row. fst row \<notin> set (map int [12])) (rows deduplicated)\<rparr>)
        (column_names washed_gap) = Inr washed_gap"
    and gap_only_if: "filter (\<lambda>row. fst row \<notin> set (map int [12])) (rows deduplicated) =
           nths (rows deduplicated) {p. p \<notin> set [12]} \<longrightarrow>
         (\<forall>i<length (rows deduplicated).
            (index deduplicated ! i \<in> set (map int [12])) = (i \<in> set [12]))"
    using forest_deduplicated gap_distinct by auto
  have gap_differ: "filter (\<lambda>row. fst row \<notin> set (map int [12])) (rows deduplicated)
       \<noteq> nths (rows deduplicated) {p. p \<notin> set [12]}"
    using gap_only_if gap_label gap_n by blast
  have gap_rows: "fst (rows deduplicated ! 12) = 13 \<and> 13 \<in> set (index washed_gap)
     \<and> fst (rows deduplicated ! 11) = 12 \<and> 12 \<notin> set (index washed_gap)"
    by (simp add: deduplicated_def washed_gap_def index_def)
  from cleaned_plain [symmetric] wash_plain_True forest_plain plain_sel plain_cols plain_labels
    plain_same plain_rows
    cleaned_flagged_first [symmetric] wash_flagged_first_True forest_flagged_first first_labels
    first_same first_other
    cleaned_with_duplicate [symmetric] wash_with_duplicate_True forest_deduplicated gap_sel
    gap_distinct gap_label gap_differ gap_rows
  show ?thesis by (intro conjI) simp_all
qed

end
